theory Spec2Isabelle
  imports Main "HOL-Library.AList" "HOL-Library.Word"
begin

unbundle bit_operations_syntax

section \<open>IFC entity instances\<close>

text \<open>
  An attribute of an entity instance, as Python sees it: the instance has no such
  attribute (\<open>hasattr\<close> is false and reading it raises \<open>AttributeError\<close>), the
  attribute is \<open>None\<close>, or it holds a value.
\<close>

datatype 'a attr = Absent | Null | Val 'a

fun hasattr :: "'a attr \<Rightarrow> bool" where
  "hasattr Absent = False"
| "hasattr Null = True"
| "hasattr (Val v) = True"

text \<open>\<open>getattr(obj, name, default)\<close>: the default is used only when the attribute is absent.\<close>

fun getattr :: "'a attr \<Rightarrow> 'a option \<Rightarrow> 'a option" where
  "getattr Absent d = d"
| "getattr Null d = None"
| "getattr (Val v) d = Some v"

datatype exn = AttributeError | TypeError | RuntimeError

record entity =
  ent_id :: nat
  ent_is_a :: string
  GlobalId :: "string attr"
  Name :: "string attr"
  Description :: "string attr"

text \<open>
  Relationship instances. The root part is what \<open>add_relationship_edge\<close> reads from
  \<open>rel_instance\<close>: \<open>id()\<close>, \<open>is_a()\<close> and the \<open>Name\<close> attribute.
\<close>

record rel_root =
  rel_id :: nat
  rel_is_a :: string
  rel_Name :: "string attr"

record rel_contained = rel_root +
  RelatingStructure :: entity
  RelatedElements :: "entity list"

record rel_aggregates = rel_root +
  RelatingObject :: entity
  RelatedObjects :: "entity list"

text \<open>
  \<open>by_type("IfcRelConnects")\<close> returns instances of every subtype; only some of them
  have the attributes \<open>RelatingElement\<close> and \<open>RelatedElement\<close>.
\<close>

record rel_connects = rel_root +
  RelatingElement :: "entity attr"
  RelatedElement :: "entity attr"

record rel_voids = rel_root +
  RelatedOpeningElement :: entity
  RelatingBuildingElement :: entity

record rel_fills = rel_root +
  RelatedBuildingElement :: entity
  RelatingOpeningElement :: entity

text \<open>
  What the property extractor reads. A wrapped value is a typed value instance with a
  \<open>wrappedValue\<close>; a primitive has no such attribute. A Python float is carried as
  the 64 bits of its IEEE representation; the only question asked of it is whether it
  is a NaN.
\<close>

datatype scalar = SBool bool | SInt int | SFloat "64 word" | SStr string

datatype ifc_value = Prim scalar | Wrapped ifc_value

fun wrappedValue :: "ifc_value \<Rightarrow> ifc_value attr" where
  "wrappedValue (Prim s) = Absent"
| "wrappedValue (Wrapped v) = Val v"

record ifc_property =
  prop_Name :: "string attr"
  NominalValue :: "ifc_value attr"

text \<open>
  \<open>pdef_is_pset\<close> is the value of \<open>prop_definition.is_a("IfcPropertySet")\<close> and
  \<open>is_by_properties\<close> that of \<open>rel.is_a("IfcRelDefinesByProperties")\<close>.
\<close>

record property_definition =
  pdef_is_pset :: bool
  pdef_Name :: "string attr"
  HasProperties :: "ifc_property list attr"

record rel_defines =
  is_by_properties :: bool
  RelatingPropertyDefinition :: "property_definition attr"

record element = entity +
  IsDefinedBy :: "rel_defines list attr"

text \<open>
  An opened model: the header's file name (\<open>None\<close> when the header or its
  \<open>file_name\<close> is missing) and the result of \<open>by_type\<close> for each type name the
  source asks for.
\<close>

record ifc_model =
  header_file_name :: "string option"
  IfcElement :: "element list"
  IfcProduct :: "entity list"
  IfcRelContainedInSpatialStructure :: "rel_contained list"
  IfcRelAggregates :: "rel_aggregates list"
  IfcRelConnects :: "rel_connects list"
  IfcRelVoidsElement :: "rel_voids list"
  IfcRelFillsElement :: "rel_fills list"

section \<open>The directed graph of graph\_builder.py\<close>

text \<open>
  \<open>G = nx.DiGraph()\<close>. A \<open>DiGraph\<close> keeps one attribute dictionary per node key and one
  per ordered pair of node keys; both are Python dictionaries, modelled as association
  lists in insertion order. Setting an existing key replaces its value in place, setting
  a new key appends it: this is \<open>AList.update\<close>.
\<close>

record node_data =
  ifc_type :: string
  name :: "string option"
  description :: "string option"
  ifc_id :: nat

record edge_data =
  relation_type :: string
  relation_name :: "string option"
  ifc_rel_id :: nat

record digraph =
  node_dict :: "(string \<times> node_data option) list"
  edge_dict :: "((string \<times> string) \<times> edge_data) list"

definition empty_digraph :: digraph where
  "empty_digraph = \<lparr>node_dict = [], edge_dict = []\<rparr>"

definition has_node :: "digraph \<Rightarrow> string \<Rightarrow> bool" where
  "has_node G n = (n \<in> set (map fst (node_dict G)))"

text \<open>
  \<open>G.add_node(n, **attr)\<close> with all four attributes given: a new node gets them,
  an existing node's are overwritten.
\<close>

definition add_node :: "digraph \<Rightarrow> string \<Rightarrow> node_data \<Rightarrow> digraph" where
  "add_node G n d = G\<lparr>node_dict := AList.update n (Some d) (node_dict G)\<rparr>"

text \<open>
  \<open>G.add_edge(u, v, **attr)\<close> of a \<open>DiGraph\<close>. It creates a missing endpoint as a
  node without attributes (\<open>None\<close> here), so the model does too. The three keyword
  attributes are always given, so an existing edge's data is replaced whole.
\<close>

definition ensure_node :: "digraph \<Rightarrow> string \<Rightarrow> digraph" where
  "ensure_node G n =
     (if has_node G n then G else G\<lparr>node_dict := node_dict G @ [(n, None)]\<rparr>)"

definition add_edge :: "digraph \<Rightarrow> string \<Rightarrow> string \<Rightarrow> edge_data \<Rightarrow> digraph" where
  "add_edge G u v d =
     (let G1 = ensure_node (ensure_node G u) v
      in G1\<lparr>edge_dict := AList.update (u, v) d (edge_dict G1)\<rparr>)"

definition number_of_nodes :: "digraph \<Rightarrow> nat" where
  "number_of_nodes G = length (node_dict G)"

definition number_of_edges :: "digraph \<Rightarrow> nat" where
  "number_of_edges G = length (edge_dict G)"

text \<open>
  The helper \<open>add_relationship_edge\<close> (a closure over \<open>G\<close>; the graph is passed and
  returned). A \<open>GlobalId\<close> that is \<open>None\<close> is never a node key, so \<open>has_node\<close> is false
  for it.
\<close>

definition add_relationship_edge ::
  "digraph \<Rightarrow> entity \<Rightarrow> entity \<Rightarrow> 'a rel_root_scheme \<Rightarrow> string \<Rightarrow> digraph \<times> bool" where
  "add_relationship_edge G source_entity target_entity rel_instance default_label =
     (if \<not> (hasattr (GlobalId source_entity) \<and> hasattr (GlobalId target_entity))
      then (G, False)
      else
        (case (getattr (GlobalId source_entity) None, getattr (GlobalId target_entity) None) of
           (Some source_id, Some target_id) \<Rightarrow>
             if has_node G source_id \<and> has_node G target_id
             then (add_edge G source_id target_id
                     \<lparr>relation_type = rel_is_a rel_instance,
                      relation_name = getattr (rel_Name rel_instance) (Some default_label),
                      ifc_rel_id = rel_id rel_instance\<rparr>, True)
             else (G, False)
         | _ \<Rightarrow> (G, False)))"

text \<open>
  One use of the helper in the body of \<open>build_graph_from_ifc\<close>:
  \<open>if add_relationship_edge(...): edges_added_count += 1\<close>. The loop state is the
  graph and the counter.
\<close>

definition link ::
  "entity \<Rightarrow> entity \<Rightarrow> 'a rel_root_scheme \<Rightarrow> string \<Rightarrow> digraph \<times> nat \<Rightarrow> digraph \<times> nat" where
  "link source_entity target_entity rel_instance default_label s =
     (case add_relationship_edge (fst s) source_entity target_entity rel_instance default_label of
        (G', added) \<Rightarrow> (G', if added then Suc (snd s) else snd s))"

text \<open>Node population: the first loop of \<open>build_graph_from_ifc\<close>.\<close>

fun add_nodes :: "digraph \<Rightarrow> entity list \<Rightarrow> digraph" where
  "add_nodes G [] = G"
| "add_nodes G (item # definitions) =
     (case GlobalId item of
        Absent \<Rightarrow> add_nodes G definitions
      | Null \<Rightarrow> add_nodes G definitions
      | Val global_id \<Rightarrow>
          if global_id = [] then add_nodes G definitions
          else add_nodes
                 (add_node G global_id
                    \<lparr>ifc_type = ent_is_a item,
                     name = getattr (Name item) None,
                     description = getattr (Description item) None,
                     ifc_id = ent_id item\<rparr>)
                 definitions)"

text \<open>The five edge loops, in the order of the source.\<close>

definition contained_step :: "rel_contained \<Rightarrow> digraph \<times> nat \<Rightarrow> digraph \<times> nat" where
  "contained_step rel s =
     fold (\<lambda>element. link element (RelatingStructure rel) rel ''is_contained_in'')
          (RelatedElements rel) s"

definition aggregates_step :: "rel_aggregates \<Rightarrow> digraph \<times> nat \<Rightarrow> digraph \<times> nat" where
  "aggregates_step rel s =
     fold (\<lambda>part. link part (RelatingObject rel) rel ''is_part_of'')
          (RelatedObjects rel) s"

text \<open>
  \<open>if hasattr(rel, 'RelatingElement') and hasattr(rel, 'RelatedElement')\<close>. When an
  attribute is present but \<open>None\<close>, the helper is called with \<open>None\<close>, finds no
  \<open>GlobalId\<close> on it and returns \<open>False\<close>.
\<close>

definition connects_step :: "rel_connects \<Rightarrow> digraph \<times> nat \<Rightarrow> digraph \<times> nat" where
  "connects_step rel s =
     (case (RelatingElement rel, RelatedElement rel) of
        (Val a, Val b) \<Rightarrow> link a b rel ''connects_to'' s
      | _ \<Rightarrow> s)"

definition voids_step :: "rel_voids \<Rightarrow> digraph \<times> nat \<Rightarrow> digraph \<times> nat" where
  "voids_step rel s =
     link (RelatedOpeningElement rel) (RelatingBuildingElement rel) rel ''voids_in_element'' s"

definition fills_step :: "rel_fills \<Rightarrow> digraph \<times> nat \<Rightarrow> digraph \<times> nat" where
  "fills_step rel s =
     link (RelatedBuildingElement rel) (RelatingOpeningElement rel) rel ''fills_opening'' s"

definition add_edges :: "ifc_model \<Rightarrow> digraph \<times> nat \<Rightarrow> digraph \<times> nat" where
  "add_edges m s =
     fold fills_step (IfcRelFillsElement m)
       (fold voids_step (IfcRelVoidsElement m)
         (fold connects_step (IfcRelConnects m)
           (fold aggregates_step (IfcRelAggregates m)
             (fold contained_step (IfcRelContainedInSpatialStructure m) s))))"

text \<open>
  The body of \<open>build_graph_from_ifc\<close> after the file has been opened. It returns the
  graph and \<open>edges_added_count\<close> (which the source prints); the elapsed time is not
  modelled.
\<close>

definition build_graph :: "ifc_model \<Rightarrow> digraph \<times> nat" where
  "build_graph m = add_edges m (add_nodes empty_digraph (IfcProduct m), 0)"

section \<open>Tables, the file store and the log\<close>

text \<open>
  A \<open>DataFrame\<close> is the list of its rows. The extractor first collects rows of six
  columns and then inserts the \<open>FileName\<close> column; \<open>extract_data\<close> adds the
  \<open>Source Model\<close> column. A cell of \<open>PropertyValue\<close> holds whatever the
  dereferencing leaves, or \<open>None\<close>.
\<close>

record prop_row =
  IFC_Entity :: string
  IFC_Name :: "string option"
  IFC_GlobalId :: "string option"
  PropertySet :: "string option"
  PropertyName :: "string option"
  PropertyValue :: "ifc_value option"

record row = prop_row +
  FileName :: string

record tagged_row = row +
  Source_Model :: string

type_synonym table = "row list"

text \<open>
  The file store: what each path holds, and which directories exist. A file that
  \<open>ifcopenshell.open\<close> can read holds a model; a file left by an interrupted write, or
  any other unreadable file, is \<open>Garbage\<close>.
\<close>

datatype file_content = Ifc ifc_model | Pickle table | Csv table | Json table | Garbage

record world =
  files :: "string \<rightharpoonup> file_content"
  dirs :: "string set"

definition path_exists :: "world \<Rightarrow> string \<Rightarrow> bool" where
  "path_exists w p = (files w p \<noteq> None \<or> p \<in> dirs w)"

text \<open>\<open>os.path.join(a, b)\<close> on POSIX, for two components.\<close>

definition path_join :: "string \<Rightarrow> string \<Rightarrow> string" where
  "path_join a b =
     (if b \<noteq> [] \<and> hd b = CHR ''/'' then b
      else if a = [] \<or> last a = CHR ''/'' then a @ b
      else a @ ''/'' @ b)"

text \<open>How a write to a path can end: done, or an exception with or without a file left.\<close>

datatype write_outcome = Written | Failed_partial | Failed_nofile

text \<open>
  A parsed JSON document, as \<open>request.get_json()\<close> returns it: \<open>None\<close>, a \<open>bool\<close>,
  an \<open>int\<close>, a \<open>float\<close>, a \<open>str\<close>, a \<open>list\<close> or a \<open>dict\<close>. The members of an
  object are kept in the order of the text; a later member replaces an earlier one of the
  same name.
\<close>

datatype json =
    JNull
  | JBool bool
  | JInt int
  | JFloat "64 word"
  | JStr string
  | JList "json list"
  | JObj "(string \<times> json) list"

text \<open>The lines the source prints or logs, as events.\<close>

datatype event =
    Open_error string
  | Parse_start string string
  | No_properties string string
  | Created_dir string
  | Mkdir_error string string
  | Saved_csv string
  | Saved_json string
  | Save_error string string
  | Cleaned_csv string
  | Delete_csv_error string
  | Cleaned_json string
  | Delete_json_error string
  | Async_started string
  | Async_completed string
  | Async_failed string
  | Async_exception string exn
  | Async_unknown_id string
  | Cache_loaded string nat
  | Cache_read_error string string
  | Memory_used string nat
  | Loading_from_ifc string
  | Parsed_ifc string nat
  | Cached_to_disk string
  | Cache_write_error string
  | Empty_not_cached string
  | Parse_error string exn
  | Path_not_found string
  | Skip_no_metadata string
  | Skip_not_completed json
  | No_dataframe string
  | Thread_error exn
  | Extract_data_error exn

definition ifcopenshell_open :: "world \<Rightarrow> string \<Rightarrow> ifc_model option" where
  "ifcopenshell_open w p = (case files w p of Some (Ifc m) \<Rightarrow> Some m | _ \<Rightarrow> None)"

text \<open>
  \<open>build_graph_from_ifc(ifc_file_path)\<close>: \<open>None\<close> when \<open>ifcopenshell.open\<close> raises.
\<close>

definition build_graph_from_ifc :: "world \<Rightarrow> string \<Rightarrow> digraph option" where
  "build_graph_from_ifc w ifc_file_path =
     (case ifcopenshell_open w ifc_file_path of
        None \<Rightarrow> None
      | Some ifc_model \<Rightarrow> Some (fst (build_graph ifc_model)))"

section \<open>ifc\_parser.py: the property extractor\<close>

text \<open>
  The value of one property: \<open>None\<close> unless \<open>NominalValue\<close> is there, then its
  \<open>wrappedValue\<close>, dereferenced once more when that has a \<open>wrappedValue\<close> itself.
\<close>

definition prop_value_of :: "ifc_property \<Rightarrow> ifc_value option" where
  "prop_value_of prop =
     (case NominalValue prop of
        Val nominal \<Rightarrow>
          (case getattr (wrappedValue nominal) None of
             None \<Rightarrow> None
           | Some v \<Rightarrow> if hasattr (wrappedValue v) then getattr (wrappedValue v) (Some v)
                       else Some v)
      | _ \<Rightarrow> None)"

definition property_row ::
  "string \<Rightarrow> string option \<Rightarrow> string option \<Rightarrow> string option \<Rightarrow> ifc_property \<Rightarrow> prop_row" where
  "property_row entity_type instance_name global_id pset_name prop =
     \<lparr>IFC_Entity = entity_type, IFC_Name = instance_name, IFC_GlobalId = global_id,
      PropertySet = pset_name,
      PropertyName = getattr (prop_Name prop) (Some ''Unknown''),
      PropertyValue = prop_value_of prop\<rparr>"

text \<open>
  The loop over \<open>inst.IsDefinedBy\<close>. Reading \<open>rel.RelatingPropertyDefinition\<close> is not
  guarded: a missing attribute raises \<open>AttributeError\<close>, and so does \<open>.is_a\<close> on
  \<open>None\<close>. \<open>HasProperties\<close> is guarded by \<open>hasattr\<close> only, so \<open>None\<close> there raises
  \<open>TypeError\<close> in the \<open>for\<close>.
\<close>

fun rels_loop ::
  "string \<Rightarrow> string option \<Rightarrow> string option \<Rightarrow> rel_defines list \<Rightarrow> prop_row list
     \<Rightarrow> exn + prop_row list" where
  "rels_loop entity_type instance_name global_id [] acc = Inr acc"
| "rels_loop entity_type instance_name global_id (rel # rels) acc =
     (if is_by_properties rel then
        (case RelatingPropertyDefinition rel of
           Val prop_definition \<Rightarrow>
             if pdef_is_pset prop_definition then
               (case HasProperties prop_definition of
                  Absent \<Rightarrow> rels_loop entity_type instance_name global_id rels acc
                | Null \<Rightarrow> Inl TypeError
                | Val props \<Rightarrow>
                    rels_loop entity_type instance_name global_id rels
                      (acc @ map (property_row entity_type instance_name global_id
                                    (getattr (pdef_Name prop_definition) (Some ''Unknown'')))
                                 props))
             else rels_loop entity_type instance_name global_id rels acc
         | _ \<Rightarrow> Inl AttributeError)
      else rels_loop entity_type instance_name global_id rels acc)"

fun instances_loop :: "element list \<Rightarrow> prop_row list \<Rightarrow> exn + prop_row list" where
  "instances_loop [] acc = Inr acc"
| "instances_loop (inst # instances) acc =
     (case IsDefinedBy inst of
        Absent \<Rightarrow> instances_loop instances acc
      | Null \<Rightarrow> Inl TypeError
      | Val rels \<Rightarrow>
          (case rels_loop (ent_is_a inst) (getattr (Name inst) None)
                  (getattr (GlobalId inst) None) rels acc of
             Inl e \<Rightarrow> Inl e
           | Inr acc' \<Rightarrow> instances_loop instances acc'))"

definition with_file_name :: "string \<Rightarrow> prop_row \<Rightarrow> row" where
  "with_file_name file_name_header r = prop_row.extend r \<lparr>FileName = file_name_header\<rparr>"

text \<open>
  \<open>extract_properties_from_ifc\<close>: the lines it prints and what it returns or raises.
  When the file cannot be opened it prints the error and returns \<open>pd.DataFrame()\<close>.
\<close>

definition extract_properties_from_ifc :: "world \<Rightarrow> string \<Rightarrow> event list \<times> (exn + table)" where
  "extract_properties_from_ifc w ifc_file_path =
     (case ifcopenshell_open w ifc_file_path of
        None \<Rightarrow> ([Open_error ifc_file_path], Inr [])
      | Some ifc_model \<Rightarrow>
          (let file_name_header =
                 (case header_file_name ifc_model of Some n \<Rightarrow> n | None \<Rightarrow> ''Unknown'')
           in case instances_loop (IfcElement ifc_model) [] of
                Inl e \<Rightarrow> ([], Inl e)
              | Inr extracted_data_list \<Rightarrow>
                  ([], Inr (map (with_file_name file_name_header) extracted_data_list))))"

section \<open>ifc\_parser.py: writing the two artifacts\<close>

text \<open>
  What the operating system does at each input/output call of \<open>parse_ifc_to_files\<close>
  is given to the model: whether \<open>os.makedirs\<close> succeeds, how each of the two writes
  ends, and whether each \<open>os.remove\<close> succeeds.
\<close>

record io_env =
  makedirs_ok :: bool
  csv_write :: write_outcome
  json_write :: write_outcome
  remove_csv_ok :: bool
  remove_json_ok :: bool

definition write_file :: "write_outcome \<Rightarrow> world \<Rightarrow> string \<Rightarrow> file_content \<Rightarrow> world" where
  "write_file outcome w p c =
     (case outcome of
        Written \<Rightarrow> w\<lparr>files := (files w)(p \<mapsto> c)\<rparr>
      | Failed_partial \<Rightarrow> w\<lparr>files := (files w)(p \<mapsto> Garbage)\<rparr>
      | Failed_nofile \<Rightarrow> w)"

definition remove_file :: "world \<Rightarrow> string \<Rightarrow> world" where
  "remove_file w p = w\<lparr>files := (files w)(p := None)\<rparr>"

text \<open>The \<open>except Exception as e_save\<close> handler: remove what exists, tolerate a failing removal.\<close>

definition cleanup ::
  "io_env \<Rightarrow> world \<Rightarrow> string \<Rightarrow> string \<Rightarrow> world \<times> event list" where
  "cleanup env w csv_file_path json_file_path =
     (let (w1, log1) =
            (if path_exists w csv_file_path then
               (if remove_csv_ok env then (remove_file w csv_file_path, [Cleaned_csv csv_file_path])
                else (w, [Delete_csv_error csv_file_path]))
             else (w, []));
          (w2, log2) =
            (if path_exists w1 json_file_path then
               (if remove_json_ok env
                then (remove_file w1 json_file_path, [Cleaned_json json_file_path])
                else (w1, [Delete_json_error json_file_path]))
             else (w1, []))
      in (w2, log1 @ log2))"

text \<open>
  The \<open>try\<close> block that saves both artifacts. The JSON records are the rows of the
  table with missing values as \<open>None\<close>, which is how the model holds them already.
\<close>

definition save_artifacts ::
  "io_env \<Rightarrow> world \<Rightarrow> table \<Rightarrow> string \<Rightarrow> string \<Rightarrow> string
     \<Rightarrow> world \<times> event list \<times> (string \<times> string) option" where
  "save_artifacts env w df_properties file_id csv_file_path json_file_path =
     (case csv_write env of
        Written \<Rightarrow>
          (let w1 = write_file Written w csv_file_path (Csv df_properties) in
           case json_write env of
             Written \<Rightarrow>
               (write_file Written w1 json_file_path (Json df_properties),
                [Saved_csv csv_file_path, Saved_json json_file_path],
                Some (csv_file_path, json_file_path))
           | failure \<Rightarrow>
               (case cleanup env (write_file failure w1 json_file_path (Json df_properties))
                       csv_file_path json_file_path of
                  (w2, log) \<Rightarrow>
                    (w2, Saved_csv csv_file_path # Save_error file_id json_file_path # log, None)))
      | failure \<Rightarrow>
          (case cleanup env (write_file failure w csv_file_path (Csv df_properties))
                  csv_file_path json_file_path of
             (w2, log) \<Rightarrow> (w2, Save_error file_id csv_file_path # log, None)))"

text \<open>
  \<open>parse_ifc_to_files\<close>. The call of the extractor is outside every \<open>try\<close>, so what
  it raises is raised here too.
\<close>

definition parse_ifc_to_files ::
  "io_env \<Rightarrow> world \<Rightarrow> string \<Rightarrow> string \<Rightarrow> string
     \<Rightarrow> world \<times> event list \<times> (exn + (string \<times> string) option)" where
  "parse_ifc_to_files env w ifc_file_path output_dir file_id =
     (case extract_properties_from_ifc w ifc_file_path of
        (log0, Inl e) \<Rightarrow> (w, Parse_start ifc_file_path file_id # log0, Inl e)
      | (log0, Inr df_properties) \<Rightarrow>
          if df_properties = [] then
            (w, Parse_start ifc_file_path file_id # log0 @ [No_properties ifc_file_path file_id],
             Inr None)
          else if \<not> path_exists w output_dir \<and> \<not> makedirs_ok env then
            (w, Parse_start ifc_file_path file_id # log0 @ [Mkdir_error output_dir file_id],
             Inr None)
          else
            (let (w1, log1) =
                   (if \<not> path_exists w output_dir
                    then (w\<lparr>dirs := insert output_dir (dirs w)\<rparr>, [Created_dir output_dir])
                    else (w, []));
                 csv_file_path = path_join output_dir (file_id @ ''.csv'');
                 json_file_path = path_join output_dir (file_id @ ''.json'')
             in case save_artifacts env w1 df_properties file_id csv_file_path json_file_path of
                  (w2, log2, r) \<Rightarrow>
                    (w2, Parse_start ifc_file_path file_id # log0 @ log1 @ log2, Inr r)))"

section \<open>app.py: the task tracker\<close>

text \<open>
  An entry of \<open>parsing_status\<close>. The keys \<open>original_filename\<close>, \<open>schema\<close>,
  \<open>software\<close> and \<open>saved_path\<close> are prefixed here, since the entries of
  \<open>uploaded_files_metadata\<close> have keys of the same names.
\<close>

datatype status = Pending | Processing | Completed | Failed

record artifacts =
  csv_path :: string
  json_path :: string

record task =
  status :: status
  task_original_filename :: string
  task_schema :: string
  task_software :: string
  task_saved_path :: string
  result :: "artifacts option"
  error :: "string option"

text \<open>The entry that \<open>upload_ifc_files\<close> stores for an accepted file.\<close>

definition new_task :: "string \<Rightarrow> string \<Rightarrow> string \<Rightarrow> string \<Rightarrow> task" where
  "new_task filename schema software filepath =
     \<lparr>status = Pending, task_original_filename = filename, task_schema = schema,
      task_software = software, task_saved_path = filepath, result = None, error = None\<rparr>"

fun str_of_exn :: "exn \<Rightarrow> string" where
  "str_of_exn AttributeError = ''AttributeError''"
| "str_of_exn TypeError = ''TypeError''"
| "str_of_exn RuntimeError = ''RuntimeError''"

text \<open>
  \<open>parse_ifc_file_async\<close>, assignment by assignment. \<open>relpath\<close> stands for
  \<open>os.path.relpath(_, os.path.dirname(__file__))\<close>. Before the call of
  \<open>parse_ifc_to_files\<close> the status becomes \<open>processing\<close>.
\<close>

definition async_begin :: "(string \<rightharpoonup> task) \<Rightarrow> string \<Rightarrow> (string \<rightharpoonup> task)" where
  "async_begin parsing_status file_id =
     (case parsing_status file_id of
        None \<Rightarrow> parsing_status
      | Some t \<Rightarrow> parsing_status(file_id \<mapsto> t\<lparr>status := Processing\<rparr>))"

text \<open>
  After the call, \<open>if csv_path and json_path\<close> chooses the branch; the \<open>else\<close> branch
  and the \<open>except\<close> handler are the other two.
\<close>

definition produced_both :: "exn + (string \<times> string) option \<Rightarrow> bool" where
  "produced_both outcome =
     (case outcome of Inr (Some (csv, json)) \<Rightarrow> csv \<noteq> [] \<and> json \<noteq> [] | _ \<Rightarrow> False)"

text \<open>
  The first assignment of each branch writes the status:
  \<open>parsing_status[file_id]['status'] = 'completed'\<close>, or \<open>'failed'\<close>.
\<close>

definition async_set_status ::
  "(string \<rightharpoonup> task) \<Rightarrow> string \<Rightarrow> exn + (string \<times> string) option \<Rightarrow> (string \<rightharpoonup> task)" where
  "async_set_status parsing_status file_id outcome =
     (case parsing_status file_id of
        None \<Rightarrow> parsing_status
      | Some t \<Rightarrow>
          parsing_status(file_id \<mapsto>
            t\<lparr>status := (if produced_both outcome then Completed else Failed)\<rparr>))"

text \<open>
  The assignments that follow it: \<open>result\<close> and then \<open>error = None\<close> in the first
  branch (the error is \<open>None\<close> already, so the state between these two is the state
  after them), \<open>error\<close> in the other two.
\<close>

definition async_set_result ::
  "(string \<Rightarrow> string) \<Rightarrow> (string \<rightharpoonup> task) \<Rightarrow> string \<Rightarrow> exn + (string \<times> string) option
     \<Rightarrow> (string \<rightharpoonup> task)" where
  "async_set_result relpath parsing_status file_id outcome =
     (case parsing_status file_id of
        None \<Rightarrow> parsing_status
      | Some t \<Rightarrow>
          (case outcome of
             Inl e \<Rightarrow> parsing_status(file_id \<mapsto> t\<lparr>error := Some (str_of_exn e)\<rparr>)
           | Inr None \<Rightarrow>
               parsing_status(file_id \<mapsto>
                 t\<lparr>error := Some ''Parsing completed but no output files were generated.''\<rparr>)
           | Inr (Some (csv, json)) \<Rightarrow>
               if csv \<noteq> [] \<and> json \<noteq> [] then
                 parsing_status(file_id \<mapsto>
                   t\<lparr>result := Some \<lparr>csv_path = relpath csv, json_path = relpath json\<rparr>,
                     error := None\<rparr>)
               else
                 parsing_status(file_id \<mapsto>
                   t\<lparr>error := Some ''Parsing completed but no output files were generated.''\<rparr>)))"

definition async_log :: "string \<Rightarrow> exn + (string \<times> string) option \<Rightarrow> event list" where
  "async_log file_id outcome =
     (case outcome of
        Inl e \<Rightarrow> [Async_exception file_id e]
      | Inr r \<Rightarrow> if produced_both outcome then [Async_completed file_id]
                 else [Async_failed file_id])"

text \<open>The end of the worker as a whole: the status, then the rest, then the printed line.\<close>

definition async_finish ::
  "(string \<Rightarrow> string) \<Rightarrow> (string \<rightharpoonup> task) \<Rightarrow> string \<Rightarrow> exn + (string \<times> string) option
     \<Rightarrow> (string \<rightharpoonup> task) \<times> event list" where
  "async_finish relpath parsing_status file_id outcome =
     (async_set_result relpath (async_set_status parsing_status file_id outcome) file_id outcome,
      if parsing_status file_id = None then [] else async_log file_id outcome)"

definition parse_ifc_file_async ::
  "(string \<Rightarrow> string) \<Rightarrow> io_env \<Rightarrow> (string \<rightharpoonup> task) \<Rightarrow> world \<Rightarrow> string \<Rightarrow> string \<Rightarrow> string
     \<Rightarrow> (string \<rightharpoonup> task) \<times> world \<times> event list" where
  "parse_ifc_file_async relpath env parsing_status w file_id ifc_file_path output_dir =
     (if parsing_status file_id = None then (parsing_status, w, [Async_unknown_id file_id])
      else
        (let ps1 = async_begin parsing_status file_id in
         case parse_ifc_to_files env w ifc_file_path output_dir file_id of
           (w', log, outcome) \<Rightarrow>
             (case async_finish relpath ps1 file_id outcome of
                (ps2, log') \<Rightarrow> (ps2, w', Async_started file_id # log @ log'))))"

text \<open>
  The tracker as a transition system. Its state is \<open>parsing_status\<close>, the ids whose
  worker thread has been started and has not run yet, the ids whose worker is inside
  \<open>parse_ifc_to_files\<close>, and the workers that have written the status and not yet
  the rest, each with what \<open>parse_ifc_to_files\<close> gave it. An upload registers an id
  that \<open>uuid.uuid4()\<close> has just made, so one that is not in the table, and starts its
  thread; nothing else starts a worker or writes to the table. The workers are threads
  with no lock, so every state between two assignments of a worker is a state of the
  tracker, and \<open>get_parsing_status\<close> can read it.
\<close>

record tracker =
  parsing_status :: "string \<rightharpoonup> task"
  started :: "string set"
  running :: "string set"
  finishing :: "string \<rightharpoonup> exn + (string \<times> string) option"

inductive reachable :: "(string \<Rightarrow> string) \<Rightarrow> tracker \<Rightarrow> bool"
  for relpath :: "string \<Rightarrow> string" where
  init:
    "reachable relpath
       \<lparr>parsing_status = Map.empty, started = {}, running = {}, finishing = Map.empty\<rparr>"
| upload:
    "reachable relpath s \<Longrightarrow> parsing_status s file_id = None \<Longrightarrow>
     reachable relpath
       (s\<lparr>parsing_status := (parsing_status s)(file_id \<mapsto> new_task filename schema software filepath),
          started := insert file_id (started s)\<rparr>)"
| worker_begins:
    "reachable relpath s \<Longrightarrow> file_id \<in> started s \<Longrightarrow>
     reachable relpath
       (s\<lparr>parsing_status := async_begin (parsing_status s) file_id,
          started := started s - {file_id},
          running := insert file_id (running s)\<rparr>)"
| worker_sets_status:
    "reachable relpath s \<Longrightarrow> file_id \<in> running s \<Longrightarrow>
     reachable relpath
       (s\<lparr>parsing_status := async_set_status (parsing_status s) file_id outcome,
          running := running s - {file_id},
          finishing := (finishing s)(file_id \<mapsto> outcome)\<rparr>)"
| worker_sets_result:
    "reachable relpath s \<Longrightarrow> finishing s file_id = Some outcome \<Longrightarrow>
     reachable relpath
       (s\<lparr>parsing_status := async_set_result relpath (parsing_status s) file_id outcome,
          finishing := (finishing s)(file_id := None)\<rparr>)"

section \<open>app.py: resolving a file's table\<close>

text \<open>
  An entry of \<open>uploaded_files_metadata\<close>. A field read with \<open>.get\<close> is \<open>None\<close>
  when the key is missing or holds \<open>None\<close>.
\<close>

record file_info =
  original_filename :: "string option"
  saved_path :: "string option"
  schema :: string
  software :: string
  discipline :: "string option"
  processed_data_df :: "table option"
  cached_df_path :: "string option"

text \<open>The entry that \<open>upload_ifc_files\<close> stores for an accepted file.\<close>

definition new_file_info :: "string \<Rightarrow> string \<Rightarrow> string \<Rightarrow> string \<Rightarrow> file_info" where
  "new_file_info filename filepath schema' software' =
     \<lparr>original_filename = Some filename, saved_path = Some filepath, schema = schema',
      software = software', discipline = None, processed_data_df = None,
      cached_df_path = None\<rparr>"

text \<open>
  What the surroundings do during one call of \<open>process_single_ifc_file\<close>: whether
  \<open>pd.read_pickle\<close> works, how \<open>to_pickle\<close> ends, and whether the calling thread has a
  Flask application context. Without one (a thread of the \<open>ThreadPoolExecutor\<close>),
  \<open>current_app.logger\<close> raises \<open>RuntimeError\<close>.
\<close>

record resolve_env =
  read_pickle_ok :: bool
  to_pickle :: write_outcome
  app_ctx :: bool

definition read_pickle :: "resolve_env \<Rightarrow> world \<Rightarrow> string \<Rightarrow> table option" where
  "read_pickle env w p =
     (case files w p of
        Some (Pickle t) \<Rightarrow> if read_pickle_ok env then Some t else None
      | _ \<Rightarrow> None)"

text \<open>\<open>f"{file_id.replace('-', '_')}_df.pkl"\<close> in \<open>app_config['CACHE_FOLDER']\<close>.\<close>

definition cache_key :: "string \<Rightarrow> string \<Rightarrow> string" where
  "cache_key cache_folder file_id =
     path_join cache_folder
       (map (\<lambda>c. if c = CHR ''-'' then CHR ''_'' else c) file_id @ ''_df.pkl'')"

text \<open>
  The third tier, \<open>if df_properties is None:\<close> at the end of
  \<open>process_single_ifc_file\<close>. The extractor never returns \<open>None\<close>, so the branch for
  that is left out. It returns the entry, the file store, the log and the table or the
  exception that leaves the function.
\<close>

definition load_from_ifc ::
  "resolve_env \<Rightarrow> string \<Rightarrow> file_info \<Rightarrow> string \<Rightarrow> world
     \<Rightarrow> file_info \<times> world \<times> event list \<times> (exn + table)" where
  "load_from_ifc env file_id file_info cache_folder w =
     (case saved_path file_info of
        None \<Rightarrow> (file_info, w, [Loading_from_ifc file_id, Path_not_found file_id], Inr [])
      | Some filepath \<Rightarrow>
          if filepath = [] \<or> \<not> path_exists w filepath then
            (file_info, w, [Loading_from_ifc file_id, Path_not_found file_id], Inr [])
          else
            (case extract_properties_from_ifc w filepath of
               (log0, Inl parse_e) \<Rightarrow>
                 (file_info, w, Loading_from_ifc file_id # log0 @ [Parse_error file_id parse_e],
                  if app_ctx env then Inr [] else Inl RuntimeError)
             | (log0, Inr parsed_df) \<Rightarrow>
                 (let file_info1 = file_info\<lparr>processed_data_df := Some parsed_df\<rparr>;
                      log1 = Loading_from_ifc file_id # log0 @ [Parsed_ifc file_id (length parsed_df)]
                  in if parsed_df \<noteq> [] then
                       (let new_cache_filepath = cache_key cache_folder file_id;
                            w1 = write_file (to_pickle env) w new_cache_filepath (Pickle parsed_df)
                        in if to_pickle env = Written then
                             (file_info1\<lparr>cached_df_path := Some new_cache_filepath\<rparr>, w1,
                              log1 @ [Cached_to_disk new_cache_filepath], Inr parsed_df)
                           else (file_info1, w1, log1 @ [Cache_write_error file_id], Inr parsed_df))
                     else (file_info1, w, log1 @ [Empty_not_cached file_id], Inr parsed_df))))"

text \<open>
  \<open>process_single_ifc_file(file_id, file_info, app_config)\<close>. It mutates \<open>file_info\<close>
  and the file store, so both are returned; the last component is the returned triple
  \<open>(file_id, filename, df_properties)\<close>, or the exception.
\<close>

definition process_single_ifc_file ::
  "resolve_env \<Rightarrow> string \<Rightarrow> file_info \<Rightarrow> string \<Rightarrow> world
     \<Rightarrow> file_info \<times> world \<times> event list \<times> (exn + string \<times> string \<times> table)" where
  "process_single_ifc_file env file_id file_info cache_folder w =
     (let filename = (case original_filename file_info of Some n \<Rightarrow> n | None \<Rightarrow> ''Unknown File'');
          disk =
            (case cached_df_path file_info of
               None \<Rightarrow> ([], None)
             | Some p \<Rightarrow>
                 if p \<noteq> [] \<and> path_exists w p then
                   (case read_pickle env w p of
                      Some t \<Rightarrow> ([Cache_loaded file_id (length t)], Some t)
                    | None \<Rightarrow> ([Cache_read_error p file_id], None))
                 else ([], None))
      in case snd disk of
           Some df_properties \<Rightarrow>
             (file_info\<lparr>processed_data_df := Some df_properties\<rparr>, w, fst disk,
              Inr (file_id, filename, df_properties))
         | None \<Rightarrow>
             (case processed_data_df file_info of
                Some df_properties \<Rightarrow>
                  (file_info, w, fst disk @ [Memory_used file_id (length df_properties)],
                   Inr (file_id, filename, df_properties))
              | None \<Rightarrow>
                  (case load_from_ifc env file_id file_info cache_folder w of
                     (file_info', w', lg, Inl e) \<Rightarrow> (file_info', w', fst disk @ lg, Inl e)
                   | (file_info', w', lg, Inr df_properties) \<Rightarrow>
                       (file_info', w', fst disk @ lg, Inr (file_id, filename, df_properties)))))"

text \<open>
  The states of one file's cache: the entry made at upload, then any number of calls of
  \<open>process_single_ifc_file\<close> for this file, and changes of the file store by anything
  else that leave this file's persisted table alone.
\<close>

inductive cache_reachable :: "string \<Rightarrow> string \<Rightarrow> file_info \<times> world \<Rightarrow> bool"
  for file_id :: string and cache_folder :: string where
  uploaded: "cache_reachable file_id cache_folder (new_file_info filename filepath sc sw, w)"
| resolved:
    "cache_reachable file_id cache_folder (fi, w) \<Longrightarrow>
     process_single_ifc_file env file_id fi cache_folder w = (fi', w', log, out) \<Longrightarrow>
     cache_reachable file_id cache_folder (fi', w')"
| elsewhere:
    "cache_reachable file_id cache_folder (fi, w) \<Longrightarrow>
     (\<forall>p. cached_df_path fi = Some p \<longrightarrow> files w' p = files w p) \<Longrightarrow>
     cache_reachable file_id cache_folder (fi, w')"

text \<open>
  The three tiers as the specification words them, each giving a table or nothing:
  the persisted table, the table attached in memory, a fresh extraction.
\<close>

definition tier_persisted :: "resolve_env \<Rightarrow> file_info \<Rightarrow> world \<Rightarrow> table option" where
  "tier_persisted env fi w =
     (case cached_df_path fi of
        None \<Rightarrow> None
      | Some p \<Rightarrow> if p \<noteq> [] \<and> path_exists w p then read_pickle env w p else None)"

definition tier_memory :: "file_info \<Rightarrow> table option" where
  "tier_memory fi = processed_data_df fi"

definition tier_fresh ::
  "resolve_env \<Rightarrow> string \<Rightarrow> file_info \<Rightarrow> string \<Rightarrow> world \<Rightarrow> exn + table" where
  "tier_fresh env file_id fi cache_folder w = snd (snd (snd (load_from_ifc env file_id fi cache_folder w)))"

definition resolve_spec ::
  "resolve_env \<Rightarrow> string \<Rightarrow> file_info \<Rightarrow> string \<Rightarrow> world \<Rightarrow> exn + table" where
  "resolve_spec env file_id fi cache_folder w =
     (case tier_persisted env fi w of
        Some t \<Rightarrow> Inr t
      | None \<Rightarrow>
          (case tier_memory fi of
             Some t \<Rightarrow> Inr t
           | None \<Rightarrow> tier_fresh env file_id fi cache_folder w))"

text \<open>The tiers a call has consulted, read off its log.\<close>

datatype tier = Persisted | Memory | Fresh

fun tier_of_event :: "event \<Rightarrow> tier list" where
  "tier_of_event (Cache_loaded f n) = [Persisted]"
| "tier_of_event (Cache_read_error p f) = [Persisted]"
| "tier_of_event (Memory_used f n) = [Memory]"
| "tier_of_event (Loading_from_ifc f) = [Fresh]"
| "tier_of_event e = []"

definition tiers_logged :: "event list \<Rightarrow> tier list" where
  "tiers_logged log = concat (map tier_of_event log)"

section \<open>app.py: extract\_data\<close>

text \<open>
  The response of the endpoint: status 400 with the reason, status 200 with the message
  and the records, or status 500 from the outermost handler, which catches every
  exception raised in the body. The message is kept as the numbers it is formatted from.
\<close>

datatype reason = Invalid_file_ids | Empty_file_ids

datatype message = No_data_extracted | Data_extracted nat nat

datatype response =
    Bad_request reason
  | Ok_response message "tagged_row list"
  | Server_error exn

text \<open>
  Python's truth value of a JSON document (\<open>not data\<close>), the test \<open>x in s\<close> on a
  \<open>str\<close>, and whether a value can be a dictionary key: a \<open>list\<close> and a \<open>dict\<close>
  are unhashable.
\<close>

definition isnan :: "64 word \<Rightarrow> bool" where
  "isnan b = (0x7FF0000000000000 < (b AND 0x7FFFFFFFFFFFFFFF))"

fun truthy :: "json \<Rightarrow> bool" where
  "truthy JNull = False"
| "truthy (JBool b) = b"
| "truthy (JInt n) = (n \<noteq> 0)"
| "truthy (JFloat b) = (b AND 0x7FFFFFFFFFFFFFFF \<noteq> 0)"
| "truthy (JStr s) = (s \<noteq> [])"
| "truthy (JList xs) = (xs \<noteq> [])"
| "truthy (JObj kvs) = (kvs \<noteq> [])"

fun str_contains :: "string \<Rightarrow> string \<Rightarrow> bool" where
  "str_contains x [] = (x = [])"
| "str_contains x (c # s) = (take (length x) (c # s) = x \<or> str_contains x s)"

fun hashable :: "json \<Rightarrow> bool" where
  "hashable (JList xs) = False"
| "hashable (JObj kvs) = False"
| "hashable j = True"

text \<open>
  The guard
  \<open>not data or 'file_ids' not in data or not isinstance(data['file_ids'], list)\<close>:
  the list of ids, \<open>None\<close> when the guard holds and the answer is 400, or the exception.
  \<open>in\<close> raises \<open>TypeError\<close> on a number or \<open>True\<close>; on a \<open>str\<close> or a \<open>list\<close> that
  does contain \<open>'file_ids'\<close> the subscript \<open>data['file_ids']\<close> raises \<open>TypeError\<close>.
\<close>

definition file_ids_of :: "json \<Rightarrow> exn + json list option" where
  "file_ids_of data =
     (if \<not> truthy data then Inr None
      else
        (case data of
           JObj kvs \<Rightarrow>
             (case map_of (rev kvs) ''file_ids'' of
                Some (JList file_ids) \<Rightarrow> Inr (Some file_ids)
              | _ \<Rightarrow> Inr None)
         | JStr s \<Rightarrow> if str_contains ''file_ids'' s then Inl TypeError else Inr None
         | JList xs \<Rightarrow> if JStr ''file_ids'' \<in> set xs then Inl TypeError else Inr None
         | _ \<Rightarrow> Inl TypeError))"

text \<open>\<open>df_properties_copy['Source Model'] = processed_filename\<close>.\<close>

definition tag_rows :: "string \<Rightarrow> table \<Rightarrow> tagged_row list" where
  "tag_rows processed_filename df_properties =
     map (\<lambda>r. row.extend r \<lparr>Source_Model = processed_filename\<rparr>) df_properties"

text \<open>
  The first loop: the ids for which a call is submitted to the executor, the lines
  printed for the others, and the exception that ends the loop, if any. The keys of
  \<open>parsing_status\<close> are strings, so an id that is not a string is not among them; the
  test \<open>file_id in parsing_status\<close> raises \<open>TypeError\<close> for an unhashable id, and the
  ids after it are not looked at.
\<close>

fun submit_loop ::
  "(string \<rightharpoonup> task) \<Rightarrow> (string \<rightharpoonup> file_info) \<Rightarrow> json list
     \<Rightarrow> string list \<times> event list \<times> exn option" where
  "submit_loop ps md [] = ([], [], None)"
| "submit_loop ps md (file_id # file_ids) =
     (if \<not> hashable file_id then ([], [], Some TypeError)
      else
        (case submit_loop ps md file_ids of
           (futures, lg, raised) \<Rightarrow>
             (case file_id of
                JStr s \<Rightarrow>
                  (case ps s of
                     None \<Rightarrow> (futures, Skip_not_completed file_id # lg, raised)
                   | Some t \<Rightarrow>
                       if status t = Completed then
                         (case md s of
                            Some file_info \<Rightarrow> (s # futures, lg, raised)
                          | None \<Rightarrow> (futures, Skip_no_metadata s # lg, raised))
                       else (futures, Skip_not_completed file_id # lg, raised))
              | _ \<Rightarrow> (futures, Skip_not_completed file_id # lg, raised))))"

text \<open>
  The submitted calls, run one after the other in the order of submission. Each works on
  the entry of its own id; the executor's threads have no application context. The
  \<open>i\<close>-th call meets the surroundings \<open>env_at i\<close>.
\<close>

fun run_futures ::
  "(nat \<Rightarrow> resolve_env) \<Rightarrow> nat \<Rightarrow> string \<Rightarrow> string list \<Rightarrow> (string \<rightharpoonup> file_info) \<Rightarrow> world
     \<Rightarrow> (string \<rightharpoonup> file_info) \<times> world \<times> event list \<times> (exn + string \<times> string \<times> table) list" where
  "run_futures env_at i cache_folder [] md w = (md, w, [], [])"
| "run_futures env_at i cache_folder (file_id # futures) md w =
     (case md file_id of
        None \<Rightarrow> run_futures env_at (Suc i) cache_folder futures md w
      | Some file_info \<Rightarrow>
          (case process_single_ifc_file ((env_at i)\<lparr>app_ctx := False\<rparr>) file_id file_info
                  cache_folder w of
             (file_info', w', lg, out) \<Rightarrow>
               (case run_futures env_at (Suc i) cache_folder futures
                       (md(file_id \<mapsto> file_info')) w' of
                  (md'', w'', lg', outs) \<Rightarrow> (md'', w'', lg @ lg', out # outs))))"

text \<open>The second loop, over \<open>future.result()\<close>.\<close>

fun collect ::
  "(exn + string \<times> string \<times> table) list \<Rightarrow> tagged_row list list \<times> nat \<times> event list" where
  "collect [] = ([], 0, [])"
| "collect (r # rs) =
     (case collect rs of
        (all_data_frames, processed_count, lg) \<Rightarrow>
          (case r of
             Inl e \<Rightarrow> (all_data_frames, processed_count, Thread_error e # lg)
           | Inr (processed_file_id, processed_filename, df_properties) \<Rightarrow>
               if df_properties \<noteq> [] then
                 (tag_rows processed_filename df_properties # all_data_frames,
                  Suc processed_count, lg)
               else (all_data_frames, processed_count, No_dataframe processed_file_id # lg)))"

text \<open>
  The records sent: \<open>None if pd.isna(v) else v\<close> for every cell. Of the cells only a
  \<open>PropertyValue\<close> can be a float; the other columns hold strings or \<open>None\<close>.
\<close>

definition isna :: "ifc_value option \<Rightarrow> bool" where
  "isna v = (case v of None \<Rightarrow> True | Some (Prim (SFloat b)) \<Rightarrow> isnan b | _ \<Rightarrow> False)"

definition records :: "tagged_row list \<Rightarrow> tagged_row list" where
  "records df_combined =
     map (\<lambda>record. if isna (PropertyValue record) then record\<lparr>PropertyValue := None\<rparr>
                    else record) df_combined"

text \<open>
  \<open>jsonify\<close> raises \<open>TypeError\<close> for a value that is no JSON value: a cell that still
  is a typed value instance.
\<close>

definition jsonify :: "tagged_row list \<Rightarrow> exn + tagged_row list" where
  "jsonify data =
     (if list_ex (\<lambda>record. case PropertyValue record of
                                  Some (Wrapped v) \<Rightarrow> True
                                | _ \<Rightarrow> False) data
      then Inl TypeError
      else Inr data)"

text \<open>
  \<open>extract_data\<close>. \<open>body\<close> is what \<open>request.get_json()\<close> does: the document, or the
  exception it raises for a body that is not JSON. When the first loop raises, the
  calls submitted before are still run, as leaving the \<open>with\<close> block waits for them;
  then the outermost handler logs the exception and answers 500.
\<close>

definition extract_data ::
  "(nat \<Rightarrow> resolve_env) \<Rightarrow> string \<Rightarrow> (string \<rightharpoonup> task) \<Rightarrow> (string \<rightharpoonup> file_info) \<Rightarrow> world
     \<Rightarrow> exn + json
     \<Rightarrow> (string \<rightharpoonup> file_info) \<times> world \<times> event list \<times> response" where
  "extract_data env_at cache_folder ps md w body =
     (case body of
        Inl e \<Rightarrow> (md, w, [Extract_data_error e], Server_error e)
      | Inr data \<Rightarrow>
          (case file_ids_of data of
             Inl e \<Rightarrow> (md, w, [Extract_data_error e], Server_error e)
           | Inr None \<Rightarrow> (md, w, [], Bad_request Invalid_file_ids)
           | Inr (Some file_ids) \<Rightarrow>
               if file_ids = [] then (md, w, [], Bad_request Empty_file_ids)
               else
                 (case submit_loop ps md file_ids of
                    (futures, lg1, raised) \<Rightarrow>
                      (case run_futures env_at 0 cache_folder futures md w of
                         (md', w', lg2, outs) \<Rightarrow>
                           (case raised of
                              Some e \<Rightarrow>
                                (md', w', lg1 @ lg2 @ [Extract_data_error e], Server_error e)
                            | None \<Rightarrow>
                                (case collect outs of
                                   (all_data_frames, processed_count, lg3) \<Rightarrow>
                                     if all_data_frames = [] then
                                       (md', w', lg1 @ lg2 @ lg3,
                                        Ok_response No_data_extracted [])
                                     else
                                       (let data_for_frontend = records (concat all_data_frames)
                                        in case jsonify data_for_frontend of
                                             Inl e \<Rightarrow>
                                               (md', w',
                                                lg1 @ lg2 @ lg3 @ [Extract_data_error e],
                                                Server_error e)
                                           | Inr sent \<Rightarrow>
                                               (md', w', lg1 @ lg2 @ lg3,
                                                Ok_response
                                                  (Data_extracted processed_count
                                                     (length data_for_frontend))
                                                  sent))))))))"

section \<open>Properties stated about the graph\<close>

text \<open>
  The elements that node population passes over: reading \<open>GlobalId\<close> raises, or the
  value is \<open>None\<close> or the empty string (\<open>if not global_id\<close>).
\<close>

definition skipped :: "entity \<Rightarrow> bool" where
  "skipped e = (case GlobalId e of Absent \<Rightarrow> True | Null \<Rightarrow> True | Val g \<Rightarrow> g = [])"

text \<open>Both endpoints of every edge are nodes of the same graph.\<close>

definition edges_closed :: "digraph \<Rightarrow> bool" where
  "edges_closed G =
     list_all (\<lambda>e. has_node G (fst (fst e)) \<and> has_node G (snd (fst e))) (edge_dict G)"

text \<open>
  What the edge loops preserve: the node dictionary \<open>N\<close> made by node population,
  closed edges, and one entry per ordered pair.
\<close>

definition graph_inv :: "(string \<times> node_data option) list \<Rightarrow> digraph \<times> nat \<Rightarrow> bool" where
  "graph_inv N s =
     (node_dict (fst s) = N \<and> edges_closed (fst s) \<and> distinct (map fst (edge_dict (fst s))))"

section \<open>Properties stated about the task tracker\<close>

text \<open>
  Both artifact locations are recorded: the result holds the relative paths of two
  non-empty paths.
\<close>

definition artifacts_recorded :: "(string \<Rightarrow> string) \<Rightarrow> task \<Rightarrow> bool" where
  "artifacts_recorded relpath t =
     (\<exists>csv json. csv \<noteq> [] \<and> json \<noteq> [] \<and>
        result t = Some \<lparr>csv_path = relpath csv, json_path = relpath json\<rparr>)"

text \<open>
  The invariant of the tracker: a started worker's task is pending, a running worker's
  task is processing, a worker between its status and the rest has the status written
  and no result yet, and a task with no worker in that position has both locations when
  it is completed and none otherwise.
\<close>

definition tracker_inv :: "(string \<Rightarrow> string) \<Rightarrow> tracker \<Rightarrow> bool" where
  "tracker_inv relpath s =
     ((\<forall>f \<in> started s. \<exists>t. parsing_status s f = Some t \<and> status t = Pending) \<and>
      (\<forall>f \<in> running s. \<exists>t. parsing_status s f = Some t \<and> status t = Processing) \<and>
      (\<forall>f outcome. finishing s f = Some outcome \<longrightarrow>
         f \<notin> started s \<and> f \<notin> running s \<and>
         (\<exists>t. parsing_status s f = Some t \<and> result t = None \<and>
              status t = (if produced_both outcome then Completed else Failed))) \<and>
      (\<forall>f t. parsing_status s f = Some t \<longrightarrow> finishing s f = None \<longrightarrow>
         (status t = Completed \<longrightarrow> artifacts_recorded relpath t) \<and>
         (status t \<noteq> Completed \<longrightarrow> result t = None)))"

section \<open>Properties stated about the cache\<close>

text \<open>The display name that \<open>process_single_ifc_file\<close> returns with the table.\<close>

definition filename_of :: "file_info \<Rightarrow> string" where
  "filename_of fi = (case original_filename fi of Some n \<Rightarrow> n | None \<Rightarrow> ''Unknown File'')"

text \<open>The persisted tier reads a file: a path is recorded and something exists there.\<close>

definition read_attempted :: "file_info \<Rightarrow> world \<Rightarrow> bool" where
  "read_attempted fi w =
     (case cached_df_path fi of Some p \<Rightarrow> p \<noteq> [] \<and> path_exists w p | None \<Rightarrow> False)"

text \<open>
  The persisted copy agrees with the copy in memory: when a location is recorded, the
  file there holds the table that is attached to the entry.
\<close>

definition cache_ok :: "file_info \<Rightarrow> world \<Rightarrow> bool" where
  "cache_ok fi w =
     (case cached_df_path fi of
        None \<Rightarrow> True
      | Some p \<Rightarrow> p \<noteq> [] \<and> (case files w p of
                               Some (Pickle t) \<Rightarrow> processed_data_df fi = Some t
                             | _ \<Rightarrow> False))"

section \<open>Properties stated about extract\_data\<close>

text \<open>The rows a call of \<open>process_single_ifc_file\<close> hands over: none when it raises.\<close>

definition rows_of :: "exn + string \<times> string \<times> table \<Rightarrow> table" where
  "rows_of out = (case out of Inl e \<Rightarrow> [] | Inr (file_id, filename, df) \<Rightarrow> df)"

text \<open>
  The ids for which \<open>extract_data\<close> submits a call: the task is completed and the
  metadata entry exists.
\<close>

definition eligible :: "(string \<rightharpoonup> task) \<Rightarrow> (string \<rightharpoonup> file_info) \<Rightarrow> string \<Rightarrow> bool" where
  "eligible ps md file_id =
     ((case ps file_id of Some t \<Rightarrow> status t = Completed | None \<Rightarrow> False) \<and>
      md file_id \<noteq> None)"

section \<open>Example inputs\<close>

text \<open>
  A wall \<open>E1\<close>, a storey \<open>S1\<close>, a proxy whose \<open>GlobalId\<close> is empty, containment
  records of the storey, and models made of them.
\<close>

definition ex_wall :: entity where
  "ex_wall = \<lparr>ent_id = 1, ent_is_a = ''IfcWall'', GlobalId = Val ''E1'', Name = Val ''Wall'',
              Description = Null\<rparr>"

definition ex_storey :: entity where
  "ex_storey = \<lparr>ent_id = 2, ent_is_a = ''IfcBuildingStorey'', GlobalId = Val ''S1'',
                Name = Null, Description = Null\<rparr>"

definition ex_proxy :: entity where
  "ex_proxy = \<lparr>ent_id = 3, ent_is_a = ''IfcBuildingElementProxy'', GlobalId = Val [],
               Name = Null, Description = Null\<rparr>"

definition ex_contained :: "nat \<Rightarrow> string attr \<Rightarrow> entity list \<Rightarrow> rel_contained" where
  "ex_contained i n es =
     \<lparr>rel_id = i, rel_is_a = ''IfcRelContainedInSpatialStructure'', rel_Name = n,
      RelatingStructure = ex_storey, RelatedElements = es\<rparr>"

definition ex_model :: "entity list \<Rightarrow> rel_contained list \<Rightarrow> ifc_model" where
  "ex_model ps rs =
     \<lparr>header_file_name = Some ''a.ifc'', IfcElement = [], IfcProduct = ps,
      IfcRelContainedInSpatialStructure = rs, IfcRelAggregates = [], IfcRelConnects = [],
      IfcRelVoidsElement = [], IfcRelFillsElement = []\<rparr>"

text \<open>
  A door with one property, models and a file store holding them, a run of the tracker
  for one file whose artifacts are written, and surroundings of the artifact writer.
\<close>

definition ex_door :: element where
  "ex_door =
     \<lparr>ent_id = 4, ent_is_a = ''IfcDoor'', GlobalId = Val ''D1'', Name = Val ''Door'',
      Description = Null,
      IsDefinedBy = Val [\<lparr>is_by_properties = True,
        RelatingPropertyDefinition = Val \<lparr>pdef_is_pset = True, pdef_Name = Val ''Pset_DoorCommon'',
          HasProperties = Val [\<lparr>prop_Name = Val ''IsExternal'',
                                  NominalValue = Val (Wrapped (Prim (SBool True)))\<rparr>]\<rparr>\<rparr>]\<rparr>"

definition ex_door_model :: ifc_model where
  "ex_door_model =
     \<lparr>header_file_name = Some ''door.ifc'', IfcElement = [ex_door], IfcProduct = [],
      IfcRelContainedInSpatialStructure = [], IfcRelAggregates = [], IfcRelConnects = [],
      IfcRelVoidsElement = [], IfcRelFillsElement = []\<rparr>"

definition ex_door_table :: table where
  "ex_door_table =
     [\<lparr>IFC_Entity = ''IfcDoor'', IFC_Name = Some ''Door'', IFC_GlobalId = Some ''D1'',
       PropertySet = Some ''Pset_DoorCommon'', PropertyName = Some ''IsExternal'',
       PropertyValue = Some (Prim (SBool True)), FileName = ''door.ifc''\<rparr>]"

definition ex_world :: world where
  "ex_world =
     \<lparr>files = [''up/door.ifc'' \<mapsto> Ifc ex_door_model,
               ''up/empty.ifc'' \<mapsto> Ifc (ex_model [] []),
               ''up/bad.ifc'' \<mapsto> Garbage],
      dirs = {''up'', ''cache''}\<rparr>"

definition ex_s0 :: tracker where
  "ex_s0 = \<lparr>parsing_status = Map.empty, started = {}, running = {}, finishing = Map.empty\<rparr>"

definition ex_s1 :: tracker where
  "ex_s1 = ex_s0\<lparr>parsing_status :=
                   (parsing_status ex_s0)(''f1'' \<mapsto> new_task ''door.ifc'' ''IFC4'' ''CAD'' ''up/door.ifc''),
                 started := insert ''f1'' (started ex_s0)\<rparr>"

definition ex_s2 :: tracker where
  "ex_s2 = ex_s1\<lparr>parsing_status := async_begin (parsing_status ex_s1) ''f1'',
                 started := started ex_s1 - {''f1''},
                 running := insert ''f1'' (running ex_s1)\<rparr>"

definition ex_s3 :: tracker where
  "ex_s3 = ex_s2\<lparr>parsing_status :=
                   async_set_status (parsing_status ex_s2) ''f1''
                     (Inr (Some (''cache/f1.csv'', ''cache/f1.json''))),
                 running := running ex_s2 - {''f1''},
                 finishing := (finishing ex_s2)
                   (''f1'' \<mapsto> Inr (Some (''cache/f1.csv'', ''cache/f1.json'')))\<rparr>"

definition ex_s4 :: tracker where
  "ex_s4 = ex_s3\<lparr>parsing_status :=
                   async_set_result id (parsing_status ex_s3) ''f1''
                     (Inr (Some (''cache/f1.csv'', ''cache/f1.json''))),
                 finishing := (finishing ex_s3)(''f1'' := None)\<rparr>"

definition ex_env :: "write_outcome \<Rightarrow> write_outcome \<Rightarrow> bool \<Rightarrow> bool \<Rightarrow> io_env" where
  "ex_env c j rc rj =
     \<lparr>makedirs_ok = True, csv_write = c, json_write = j, remove_csv_ok = rc, remove_json_ok = rj\<rparr>"

definition ex_tasks :: "string \<rightharpoonup> task" where
  "ex_tasks = [''f1'' \<mapsto> new_task ''door.ifc'' ''IFC4'' ''CAD'' ''up/door.ifc'']"

text \<open>
  Entries of \<open>uploaded_files_metadata\<close>, surroundings of a call, and the file store
  with a file at the first entry's cache location.
\<close>

definition ex_info :: "string \<Rightarrow> table option \<Rightarrow> string option \<Rightarrow> file_info" where
  "ex_info n df cached =
     (new_file_info (n @ ''.ifc'') (''up/'' @ n @ ''.ifc'') ''IFC4'' ''CAD'')
       \<lparr>processed_data_df := df, cached_df_path := cached\<rparr>"

definition ex_renv :: "bool \<Rightarrow> write_outcome \<Rightarrow> bool \<Rightarrow> resolve_env" where
  "ex_renv r p c = \<lparr>read_pickle_ok = r, to_pickle = p, app_ctx = c\<rparr>"

definition ex_cache_world :: "file_content \<Rightarrow> world" where
  "ex_cache_world c = ex_world\<lparr>files := (files ex_world)(''cache/f_1_df.pkl'' \<mapsto> c)\<rparr>"

text \<open>
  A task table and a metadata table with one completed file, uploaded under the name
  \<open>model_A.ifc\<close>; the header of the file names it \<open>door.ifc\<close>.
\<close>

definition ex_status :: "string \<rightharpoonup> task" where
  "ex_status =
     [''f-1'' \<mapsto> (new_task ''model_A.ifc'' ''IFC4'' ''CAD'' ''up/door.ifc'')
                    \<lparr>status := Completed,
                     result := Some \<lparr>csv_path = ''cache/f-1.csv'',
                                     json_path = ''cache/f-1.json''\<rparr>\<rparr>]"

definition ex_upload :: file_info where
  "ex_upload = new_file_info ''model_A.ifc'' ''up/door.ifc'' ''IFC4'' ''CAD''"

definition ex_metadata :: "string \<rightharpoonup> file_info" where
  "ex_metadata = [''f-1'' \<mapsto> ex_upload]"

section \<open>The graph builder: proofs\<close>

lemma keys_update: "fst ` set (AList.update k v al) = insert k (fst ` set al)"
  by (induction al) auto

lemma add_nodes_no_empty_key:
  "[] \<notin> fst ` set (node_dict G) \<Longrightarrow> [] \<notin> fst ` set (node_dict (add_nodes G xs))"
proof (induction xs arbitrary: G)
  case Nil
  then show ?case by simp
next
  case (Cons item xs)
  show ?case
  proof (cases "GlobalId item")
    case (Val g)
    show ?thesis
    proof (cases "g = []")
      case True
      then show ?thesis using Val Cons by simp
    next
      case False
      have "[] \<notin> fst ` set (node_dict (add_node G g
              \<lparr>ifc_type = ent_is_a item, name = getattr (Name item) None,
               description = getattr (Description item) None, ifc_id = ent_id item\<rparr>))"
        using False Cons.prems by (simp add: add_node_def keys_update)
      from Cons.IH [OF this] show ?thesis using Val False by simp
    qed
  qed (use Cons in simp_all)
qed

lemma add_nodes_edge_dict: "edge_dict (add_nodes G xs) = edge_dict G"
  by (induction xs arbitrary: G) (auto simp: add_node_def split: attr.splits)

lemma ensure_node_present: "has_node G n \<Longrightarrow> ensure_node G n = G"
  by (simp add: ensure_node_def)

lemma add_edge_present:
  "has_node G u \<Longrightarrow> has_node G v \<Longrightarrow>
   add_edge G u v d = G\<lparr>edge_dict := AList.update (u, v) d (edge_dict G)\<rparr>"
  by (simp add: add_edge_def ensure_node_present)

lemma are_cases:
  "add_relationship_edge G s t r l = (G, False) \<or>
   (\<exists>u v. GlobalId s = Val u \<and> GlobalId t = Val v \<and> has_node G u \<and> has_node G v \<and>
      add_relationship_edge G s t r l =
        (G\<lparr>edge_dict := AList.update (u, v)
              \<lparr>relation_type = rel_is_a r,
               relation_name = getattr (rel_Name r) (Some l),
               ifc_rel_id = rel_id r\<rparr> (edge_dict G)\<rparr>, True))"
  by (cases "GlobalId s"; cases "GlobalId t")
     (auto simp: add_relationship_edge_def add_edge_present)

lemma list_all_update:
  "list_all P al \<Longrightarrow> P (k, v) \<Longrightarrow> list_all P (AList.update k v al)"
  by (induction al) auto

lemma link_inv: "graph_inv N s \<Longrightarrow> graph_inv N (link a b r l s)"
proof -
  assume inv: "graph_inv N s"
  from are_cases [of "fst s" a b r l] show ?thesis
  proof
    assume "add_relationship_edge (fst s) a b r l = (fst s, False)"
    then show ?thesis using inv by (simp add: link_def graph_inv_def)
  next
    assume "\<exists>u v. GlobalId a = Val u \<and> GlobalId b = Val v \<and> has_node (fst s) u \<and> has_node (fst s) v \<and>
      add_relationship_edge (fst s) a b r l =
        ((fst s)\<lparr>edge_dict := AList.update (u, v)
              \<lparr>relation_type = rel_is_a r,
               relation_name = getattr (rel_Name r) (Some l),
               ifc_rel_id = rel_id r\<rparr> (edge_dict (fst s))\<rparr>, True)"
    then obtain u v where uv: "has_node (fst s) u" "has_node (fst s) v"
      and eq: "add_relationship_edge (fst s) a b r l =
        ((fst s)\<lparr>edge_dict := AList.update (u, v)
              \<lparr>relation_type = rel_is_a r,
               relation_name = getattr (rel_Name r) (Some l),
               ifc_rel_id = rel_id r\<rparr> (edge_dict (fst s))\<rparr>, True)"
      by blast
    have cl: "list_all (\<lambda>e. has_node (fst s) (fst (fst e)) \<and> has_node (fst s) (snd (fst e))) (edge_dict (fst s))"
      using inv by (simp add: graph_inv_def edges_closed_def)
    show ?thesis
      using inv uv list_all_update [OF cl, of "(u, v)"]
      by (simp add: link_def eq graph_inv_def edges_closed_def has_node_def distinct_update)
  qed
qed

lemma fold_inv:
  "(\<And>x s. P s \<Longrightarrow> P (f x s)) \<Longrightarrow> P s \<Longrightarrow> P (fold f xs s)"
  by (induction xs arbitrary: s) auto

lemma contained_step_inv: "graph_inv N s \<Longrightarrow> graph_inv N (contained_step r s)"
  unfolding contained_step_def by (rule fold_inv [where P = "graph_inv N"]) (rule link_inv)

lemma aggregates_step_inv: "graph_inv N s \<Longrightarrow> graph_inv N (aggregates_step r s)"
  unfolding aggregates_step_def by (rule fold_inv [where P = "graph_inv N"]) (rule link_inv)

lemma connects_step_inv: "graph_inv N s \<Longrightarrow> graph_inv N (connects_step r s)"
  by (auto simp: connects_step_def link_inv split: attr.splits)

lemma voids_step_inv: "graph_inv N s \<Longrightarrow> graph_inv N (voids_step r s)"
  by (simp add: voids_step_def link_inv)

lemma fills_step_inv: "graph_inv N s \<Longrightarrow> graph_inv N (fills_step r s)"
  by (simp add: fills_step_def link_inv)

lemma add_edges_inv: "graph_inv N s \<Longrightarrow> graph_inv N (add_edges m s)"
  unfolding add_edges_def
  apply (rule fold_inv [where P = "graph_inv N"], erule fills_step_inv)
  apply (rule fold_inv [where P = "graph_inv N"], erule voids_step_inv)
  apply (rule fold_inv [where P = "graph_inv N"], erule connects_step_inv)
  apply (rule fold_inv [where P = "graph_inv N"], erule aggregates_step_inv)
  apply (rule fold_inv [where P = "graph_inv N"], erule contained_step_inv)
  apply assumption
  done

lemma build_graph_inv:
  "graph_inv (node_dict (add_nodes empty_digraph (IfcProduct m))) (build_graph m)"
  unfolding build_graph_def
  by (rule add_edges_inv)
     (simp add: graph_inv_def edges_closed_def add_nodes_edge_dict empty_digraph_def)

lemma skipped_dropped:
  "[] \<notin> fst ` set (node_dict G) \<Longrightarrow> skipped s \<or> skipped t \<Longrightarrow>
   add_relationship_edge G s t r l = (G, False)"
  by (cases "GlobalId s"; cases "GlobalId t")
     (force simp: add_relationship_edge_def skipped_def has_node_def)+

lemmas ex_defs = ex_wall_def ex_storey_def ex_proxy_def ex_contained_def ex_model_def

lemmas graph_defs = build_graph_def add_edges_def contained_step_def aggregates_step_def
  connects_step_def voids_step_def fills_step_def link_def add_relationship_edge_def add_edge_def
  ensure_node_def has_node_def add_node_def empty_digraph_def number_of_edges_def
  number_of_nodes_def

text \<open>
  C4. In the graph that \<open>build_graph\<close> returns for any model, both endpoints of every
  edge are nodes of that graph; the nodes are exactly those made by node population, so
  no node is created to host an edge; and at every graph with these nodes, the helper
  called for a relationship one of whose endpoints node population passed over returns
  \<open>False\<close> and leaves the graph as it is.
\<close>

theorem C4_edge_endpoints_are_nodes:
  "edges_closed (fst (build_graph m)) \<and>
   node_dict (fst (build_graph m)) = node_dict (add_nodes empty_digraph (IfcProduct m)) \<and>
   (node_dict G = node_dict (fst (build_graph m)) \<longrightarrow> skipped s \<or> skipped t \<longrightarrow>
      add_relationship_edge G s t r l = (G, False))"
proof -
  let ?N = "node_dict (add_nodes empty_digraph (IfcProduct m))"
  have inv: "graph_inv ?N (build_graph m)" by (rule build_graph_inv)
  have "[] \<notin> fst ` set ?N"
    by (rule add_nodes_no_empty_key) (simp add: empty_digraph_def)
  then have "node_dict G = ?N \<Longrightarrow> skipped s \<or> skipped t \<Longrightarrow>
      add_relationship_edge G s t r l = (G, False)"
    using skipped_dropped [of G s t r l] by simp
  then show ?thesis using inv by (simp add: graph_inv_def)
qed

theorem C4_edge_endpoints_are_nodes_witness:
  "edges_closed (fst (build_graph (ex_model [ex_wall, ex_storey, ex_proxy]
       [ex_contained 10 Absent [ex_wall, ex_proxy]]))) \<and>
   map fst (edge_dict (fst (build_graph (ex_model [ex_wall, ex_storey, ex_proxy]
       [ex_contained 10 Absent [ex_wall, ex_proxy]])))) = [(''E1'', ''S1'')] \<and>
   map fst (node_dict (fst (build_graph (ex_model [ex_wall, ex_storey, ex_proxy]
       [ex_contained 10 Absent [ex_wall, ex_proxy]])))) = [''E1'', ''S1''] \<and>
   skipped ex_proxy \<and>
   add_relationship_edge
     (fst (build_graph (ex_model [ex_wall, ex_storey, ex_proxy]
        [ex_contained 10 Absent [ex_wall, ex_proxy]])))
     ex_proxy ex_storey (ex_contained 10 Absent [ex_wall, ex_proxy]) ''is_contained_in'' =
   (fst (build_graph (ex_model [ex_wall, ex_storey, ex_proxy]
        [ex_contained 10 Absent [ex_wall, ex_proxy]])), False)"
  using C4_edge_endpoints_are_nodes
    [of "ex_model [ex_wall, ex_storey, ex_proxy] [ex_contained 10 Absent [ex_wall, ex_proxy]]"
        "fst (build_graph (ex_model [ex_wall, ex_storey, ex_proxy]
           [ex_contained 10 Absent [ex_wall, ex_proxy]]))"
        ex_proxy ex_storey "ex_contained 10 Absent [ex_wall, ex_proxy]" "''is_contained_in''"]
  by (simp add: ex_defs graph_defs skipped_def)

lemma keys_update_any:
  "map fst (AList.update k v al) = map fst (AList.update k v' al)"
  by (induction al) auto

lemma link_unchanged:
  "add_relationship_edge (fst s) a b r l = (fst s, False) \<Longrightarrow> link a b r l s = s"
  by (simp add: link_def)

lemma link_pair:
  assumes "has_node G u" and "has_node G v"
    and "GlobalId s = Val u" and "GlobalId t = Val v"
  shows "link s t r l (G, n) =
           (G\<lparr>edge_dict := AList.update (u, v)
                   \<lparr>relation_type = rel_is_a r,
                    relation_name = getattr (rel_Name r) (Some l),
                    ifc_rel_id = rel_id r\<rparr> (edge_dict G)\<rparr>,
            Suc n)"
  using assms by (simp add: link_def add_relationship_edge_def add_edge_present)

lemma fold_connects_none:
  "list_all (\<lambda>c. \<not> (hasattr (RelatingElement c) \<and> hasattr (RelatedElement c))) cs \<Longrightarrow>
   fold connects_step cs s = s"
  by (induction cs arbitrary: s) (auto simp: connects_step_def split: attr.splits)

lemma has_node_add_node: "has_node (add_node G n d) g = (g = n \<or> has_node G g)"
  by (simp add: has_node_def add_node_def keys_update)

lemma add_nodes_keeps_node: "has_node G g \<Longrightarrow> has_node (add_nodes G ps) g"
proof (induction ps arbitrary: G)
  case Nil
  then show ?case by simp
next
  case (Cons item ps)
  show ?case
  proof (cases "GlobalId item")
    case (Val gid)
    show ?thesis
    proof (cases "gid = []")
      case True
      then show ?thesis using Val Cons by simp
    next
      case False
      have "has_node (add_node G gid
              \<lparr>ifc_type = ent_is_a item, name = getattr (Name item) None,
               description = getattr (Description item) None, ifc_id = ent_id item\<rparr>) g"
        using Cons.prems by (simp add: has_node_add_node)
      from Cons.IH [OF this] show ?thesis using Val False by simp
    qed
  qed (use Cons in simp_all)
qed

lemma add_nodes_has_node:
  "e \<in> set ps \<Longrightarrow> GlobalId e = Val g \<Longrightarrow> g \<noteq> [] \<Longrightarrow> has_node (add_nodes G ps) g"
proof (induction ps arbitrary: G)
  case Nil
  then show ?case by simp
next
  case (Cons item ps)
  show ?case
  proof (cases "e = item")
    case True
    have "has_node (add_node G g
              \<lparr>ifc_type = ent_is_a item, name = getattr (Name item) None,
               description = getattr (Description item) None, ifc_id = ent_id item\<rparr>) g"
      by (simp add: has_node_add_node)
    from add_nodes_keeps_node [OF this, of ps] show ?thesis
      using True Cons.prems by simp
  next
    case False
    then have in_ps: "e \<in> set ps" using Cons.prems(1) by simp
    show ?thesis
    proof (cases "GlobalId item")
      case (Val gid)
      then show ?thesis
        using Cons.IH [OF in_ps Cons.prems(2,3)] by (cases "gid = []") simp_all
    qed (use Cons.IH [OF in_ps Cons.prems(2,3)] in simp_all)
  qed
qed

text \<open>
  The graph of a model with one containment record of \<open>E1\<close> in \<open>S1\<close> and nothing
  else.
\<close>

lemma two_nodes:
  assumes "GlobalId e1 = Val g1" "GlobalId s1 = Val g2" "g1 \<noteq> []" "g2 \<noteq> []" "g1 \<noteq> g2"
    and "ps = [e1, s1] \<or> ps = [s1, e1]"
  shows "number_of_nodes (add_nodes empty_digraph ps) = 2 \<and>
         has_node (add_nodes empty_digraph ps) g1 \<and> has_node (add_nodes empty_digraph ps) g2 \<and>
         edge_dict (add_nodes empty_digraph ps) = []"
  using assms by (auto simp: number_of_nodes_def has_node_def add_node_def empty_digraph_def)

lemma single_containment_graph:
  assumes "GlobalId e1 = Val g1" and "GlobalId s1 = Val g2"
    and "g1 \<noteq> []" and "g2 \<noteq> []" and "g1 \<noteq> g2"
    and "IfcProduct m = [e1, s1] \<or> IfcProduct m = [s1, e1]"
    and "IfcRelContainedInSpatialStructure m = [rel]"
    and "RelatingStructure rel = s1" and "RelatedElements rel = [e1]"
    and "IfcRelAggregates m = []" and "IfcRelVoidsElement m = []" and "IfcRelFillsElement m = []"
    and "list_all (\<lambda>c. \<not> (hasattr (RelatingElement c) \<and> hasattr (RelatedElement c)))
           (IfcRelConnects m)"
  shows "number_of_nodes (fst (build_graph m)) = 2 \<and>
         has_node (fst (build_graph m)) g1 \<and> has_node (fst (build_graph m)) g2 \<and>
         edge_dict (fst (build_graph m)) =
           [((g1, g2), \<lparr>relation_type = rel_is_a rel,
                        relation_name = getattr (rel_Name rel) (Some ''is_contained_in''),
                        ifc_rel_id = rel_id rel\<rparr>)]"
proof -
  let ?G0 = "add_nodes empty_digraph (IfcProduct m)"
  have n: "number_of_nodes ?G0 = 2 \<and> has_node ?G0 g1 \<and> has_node ?G0 g2 \<and> edge_dict ?G0 = []"
    using assms(1-6) by (rule two_nodes)
  let ?d = "\<lparr>relation_type = rel_is_a rel,
             relation_name = getattr (rel_Name rel) (Some ''is_contained_in''),
             ifc_rel_id = rel_id rel\<rparr>"
  have a: "link e1 s1 rel ''is_contained_in'' (?G0, 0) = (?G0\<lparr>edge_dict := [((g1, g2), ?d)]\<rparr>, 1)"
    using n link_pair [of ?G0 g1 g2 e1 s1 rel "''is_contained_in''" 0] assms(1,2) by simp
  have b: "build_graph m = (?G0\<lparr>edge_dict := [((g1, g2), ?d)]\<rparr>, 1)"
    using assms(7-13) a
    by (simp add: build_graph_def add_edges_def contained_step_def fold_connects_none)
  show ?thesis
    using n by (simp add: b number_of_nodes_def has_node_def)
qed

text \<open>
  C1, as amended. The graph is a \<open>DiGraph\<close>: for every model the built graph has at
  most one edge per ordered pair of nodes. Whenever the step of an edge loop is taken
  twice for the same ordered pair of nodes, with two relationship records, both are
  counted in \<open>edges_added_count\<close>, the second adds no edge, and the one edge of the
  pair carries the type and the id of the second record, and its name when it has one.
  So a model whose only relationships are two containment records of the same element
  in the same structure, both among the products with non-empty identifiers, gives a
  count of 2 and a graph with exactly one edge, which carries the type, the id and the
  name (when it has one) of the second record.
\<close>

theorem C1_one_edge_per_ordered_pair:
  "distinct (map fst (edge_dict (fst (build_graph m)))) \<and>
   (has_node G u \<and> has_node G v \<and> GlobalId s = Val u \<and> GlobalId t = Val v \<longrightarrow>
      snd (link s t r2 l2 (link s t r1 l1 (G, n))) = Suc (Suc n) \<and>
      map fst (edge_dict (fst (link s t r2 l2 (link s t r1 l1 (G, n))))) =
        map fst (edge_dict (fst (link s t r1 l1 (G, n)))) \<and>
      map_option relation_type
        (map_of (edge_dict (fst (link s t r2 l2 (link s t r1 l1 (G, n))))) (u, v)) =
        Some (rel_is_a r2) \<and>
      map_option ifc_rel_id
        (map_of (edge_dict (fst (link s t r2 l2 (link s t r1 l1 (G, n))))) (u, v)) =
        Some (rel_id r2) \<and>
      (rel_Name r2 = Val nm \<longrightarrow>
         map_option relation_name
           (map_of (edge_dict (fst (link s t r2 l2 (link s t r1 l1 (G, n))))) (u, v)) =
           Some (Some nm))) \<and>
   (GlobalId e = Val g1 \<and> GlobalId st = Val g2 \<and> g1 \<noteq> [] \<and> g2 \<noteq> [] \<and>
    e \<in> set (IfcProduct m) \<and> st \<in> set (IfcProduct m) \<and>
    IfcRelContainedInSpatialStructure m = [ra, rb] \<and>
    RelatingStructure ra = st \<and> RelatedElements ra = [e] \<and>
    RelatingStructure rb = st \<and> RelatedElements rb = [e] \<and>
    IfcRelAggregates m = [] \<and> IfcRelVoidsElement m = [] \<and> IfcRelFillsElement m = [] \<and>
    list_all (\<lambda>c. \<not> (hasattr (RelatingElement c) \<and> hasattr (RelatedElement c)))
      (IfcRelConnects m) \<longrightarrow>
      snd (build_graph m) = 2 \<and>
      number_of_edges (fst (build_graph m)) = 1 \<and>
      map fst (edge_dict (fst (build_graph m))) = [(g1, g2)] \<and>
      map (relation_type \<circ> snd) (edge_dict (fst (build_graph m))) = [rel_is_a rb] \<and>
      map (ifc_rel_id \<circ> snd) (edge_dict (fst (build_graph m))) = [rel_id rb] \<and>
      (rel_Name rb = Val nm' \<longrightarrow>
         map (relation_name \<circ> snd) (edge_dict (fst (build_graph m))) = [Some nm']))"
proof (intro conjI impI)
  show "distinct (map fst (edge_dict (fst (build_graph m))))"
    using build_graph_inv [of m] by (simp add: graph_inv_def)
next
  assume h: "has_node G u \<and> has_node G v \<and> GlobalId s = Val u \<and> GlobalId t = Val v"
  let ?d1 = "\<lparr>relation_type = rel_is_a r1, relation_name = getattr (rel_Name r1) (Some l1),
              ifc_rel_id = rel_id r1\<rparr>"
  let ?d2 = "\<lparr>relation_type = rel_is_a r2, relation_name = getattr (rel_Name r2) (Some l2),
              ifc_rel_id = rel_id r2\<rparr>"
  let ?G1 = "G\<lparr>edge_dict := AList.update (u, v) ?d1 (edge_dict G)\<rparr>"
  have 1: "link s t r1 l1 (G, n) = (?G1, Suc n)"
    using h link_pair [of G u v s t r1 l1 n] by simp
  have "has_node ?G1 u" "has_node ?G1 v" using h by (simp_all add: has_node_def)
  from link_pair [OF this, of s t r2 l2 "Suc n"]
  have 2: "link s t r2 l2 (link s t r1 l1 (G, n)) =
             (G\<lparr>edge_dict := AList.update (u, v) ?d2 (edge_dict G)\<rparr>, Suc (Suc n))"
    using h by (simp add: 1)
  show "snd (link s t r2 l2 (link s t r1 l1 (G, n))) = Suc (Suc n)"
    by (simp add: 2)
  show "map fst (edge_dict (fst (link s t r2 l2 (link s t r1 l1 (G, n))))) =
        map fst (edge_dict (fst (link s t r1 l1 (G, n))))"
    unfolding 2 unfolding 1 by simp (rule keys_update_any)
  show "map_option relation_type
        (map_of (edge_dict (fst (link s t r2 l2 (link s t r1 l1 (G, n))))) (u, v)) =
        Some (rel_is_a r2)"
    by (simp add: 2 update_conv')
  show "map_option ifc_rel_id
        (map_of (edge_dict (fst (link s t r2 l2 (link s t r1 l1 (G, n))))) (u, v)) =
        Some (rel_id r2)"
    by (simp add: 2 update_conv')
  show "map_option relation_name
           (map_of (edge_dict (fst (link s t r2 l2 (link s t r1 l1 (G, n))))) (u, v)) =
           Some (Some nm)" if "rel_Name r2 = Val nm"
    using that by (simp add: 2 update_conv')
next
  assume h: "GlobalId e = Val g1 \<and> GlobalId st = Val g2 \<and> g1 \<noteq> [] \<and> g2 \<noteq> [] \<and>
    e \<in> set (IfcProduct m) \<and> st \<in> set (IfcProduct m) \<and>
    IfcRelContainedInSpatialStructure m = [ra, rb] \<and>
    RelatingStructure ra = st \<and> RelatedElements ra = [e] \<and>
    RelatingStructure rb = st \<and> RelatedElements rb = [e] \<and>
    IfcRelAggregates m = [] \<and> IfcRelVoidsElement m = [] \<and> IfcRelFillsElement m = [] \<and>
    list_all (\<lambda>c. \<not> (hasattr (RelatingElement c) \<and> hasattr (RelatedElement c)))
      (IfcRelConnects m)"
  let ?G0 = "add_nodes empty_digraph (IfcProduct m)"
  let ?db = "\<lparr>relation_type = rel_is_a rb,
              relation_name = getattr (rel_Name rb) (Some ''is_contained_in''),
              ifc_rel_id = rel_id rb\<rparr>"
  from h have hs: "GlobalId e = Val g1" "GlobalId st = Val g2" "g1 \<noteq> []" "g2 \<noteq> []"
    "e \<in> set (IfcProduct m)" "st \<in> set (IfcProduct m)"
    by simp_all
  have n1: "has_node ?G0 g1" by (rule add_nodes_has_node [OF hs(5) hs(1) hs(3)])
  have n2: "has_node ?G0 g2" by (rule add_nodes_has_node [OF hs(6) hs(2) hs(4)])
  have e0: "edge_dict ?G0 = []" by (simp add: add_nodes_edge_dict empty_digraph_def)
  let ?Ga = "?G0\<lparr>edge_dict := [((g1, g2),
                 \<lparr>relation_type = rel_is_a ra,
                  relation_name = getattr (rel_Name ra) (Some ''is_contained_in''),
                  ifc_rel_id = rel_id ra\<rparr>)]\<rparr>"
  have 1: "link e st ra ''is_contained_in'' (?G0, 0) = (?Ga, Suc 0)"
    using h n1 n2 e0 link_pair [of ?G0 g1 g2 e st ra "''is_contained_in''" 0] by simp
  have "has_node ?Ga g1" "has_node ?Ga g2" using n1 n2 by (simp_all add: has_node_def)
  from link_pair [OF this, of e st rb "''is_contained_in''" "Suc 0"]
  have 2: "link e st rb ''is_contained_in'' (link e st ra ''is_contained_in'' (?G0, 0)) =
             (?G0\<lparr>edge_dict := [((g1, g2), ?db)]\<rparr>, Suc (Suc 0))"
    using h by (simp add: 1)
  have b: "build_graph m = (?G0\<lparr>edge_dict := [((g1, g2), ?db)]\<rparr>, 2)"
    using h 2 by (simp add: build_graph_def add_edges_def contained_step_def fold_connects_none)
  show "snd (build_graph m) = 2" by (simp add: b)
  show "number_of_edges (fst (build_graph m)) = 1" by (simp add: b number_of_edges_def)
  show "map fst (edge_dict (fst (build_graph m))) = [(g1, g2)]" by (simp add: b)
  show "map (relation_type \<circ> snd) (edge_dict (fst (build_graph m))) = [rel_is_a rb]"
    by (simp add: b)
  show "map (ifc_rel_id \<circ> snd) (edge_dict (fst (build_graph m))) = [rel_id rb]"
    by (simp add: b)
  show "map (relation_name \<circ> snd) (edge_dict (fst (build_graph m))) = [Some nm']"
    if "rel_Name rb = Val nm'"
    using that by (simp add: b)
qed

theorem C1_one_edge_per_ordered_pair_witness:
  "distinct (map fst (edge_dict (fst (build_graph
      (ex_model [ex_wall, ex_storey] [ex_contained 10 Null [ex_wall],
                                       ex_contained 11 (Val ''second'') [ex_wall]]))))) \<and>
   has_node (add_nodes empty_digraph [ex_wall, ex_storey]) ''E1'' \<and>
   has_node (add_nodes empty_digraph [ex_wall, ex_storey]) ''S1'' \<and>
   snd (link ex_wall ex_storey (ex_contained 11 (Val ''second'') [ex_wall]) ''is_contained_in''
          (link ex_wall ex_storey (ex_contained 10 Null [ex_wall]) ''is_contained_in''
             (add_nodes empty_digraph [ex_wall, ex_storey], 0))) = 2 \<and>
   snd (build_graph (ex_model [ex_wall, ex_storey]
          [ex_contained 10 Null [ex_wall], ex_contained 11 (Val ''second'') [ex_wall]])) = 2 \<and>
   number_of_edges (fst (build_graph (ex_model [ex_wall, ex_storey]
          [ex_contained 10 Null [ex_wall], ex_contained 11 (Val ''second'') [ex_wall]]))) = 1 \<and>
   map fst (edge_dict (fst (build_graph (ex_model [ex_wall, ex_storey]
          [ex_contained 10 Null [ex_wall], ex_contained 11 (Val ''second'') [ex_wall]])))) =
     [(''E1'', ''S1'')] \<and>
   map (ifc_rel_id \<circ> snd) (edge_dict (fst (build_graph (ex_model [ex_wall, ex_storey]
          [ex_contained 10 Null [ex_wall], ex_contained 11 (Val ''second'') [ex_wall]])))) =
     [11] \<and>
   map (relation_name \<circ> snd) (edge_dict (fst (build_graph (ex_model [ex_wall, ex_storey]
          [ex_contained 10 Null [ex_wall], ex_contained 11 (Val ''second'') [ex_wall]])))) =
     [Some ''second'']"
  using C1_one_edge_per_ordered_pair
    [of "ex_model [ex_wall, ex_storey] [ex_contained 10 Null [ex_wall],
                                       ex_contained 11 (Val ''second'') [ex_wall]]"
        "add_nodes empty_digraph [ex_wall, ex_storey]" "''E1''" "''S1''" ex_wall ex_storey
        "ex_contained 11 (Val ''second'') [ex_wall]" "''is_contained_in''"
        "ex_contained 10 Null [ex_wall]" "''is_contained_in''" 0 "''second''"
        ex_wall "''E1''" ex_storey "''S1''"
        "ex_contained 10 Null [ex_wall]" "ex_contained 11 (Val ''second'') [ex_wall]"
        "''second''"]
  by (simp add: ex_defs has_node_def add_node_def empty_digraph_def)

text \<open>
  C1 as stated fails: two containment records with different ids, neither of them named,
  relate the wall to the storey; the counter of added edges is 2, the graph has one
  edge, and it carries the id of the second record.
\<close>

theorem C1_duplicate_records_counterexample:
  "rel_id (ex_contained 10 Null [ex_wall]) \<noteq> rel_id (ex_contained 11 Null [ex_wall]) \<and>
   snd (build_graph (ex_model [ex_wall, ex_storey]
          [ex_contained 10 Null [ex_wall], ex_contained 11 Null [ex_wall]])) = 2 \<and>
   number_of_edges (fst (build_graph (ex_model [ex_wall, ex_storey]
          [ex_contained 10 Null [ex_wall], ex_contained 11 Null [ex_wall]]))) = 1 \<and>
   edge_dict (fst (build_graph (ex_model [ex_wall, ex_storey]
          [ex_contained 10 Null [ex_wall], ex_contained 11 Null [ex_wall]]))) =
     [((''E1'', ''S1''),
       \<lparr>relation_type = ''IfcRelContainedInSpatialStructure'',
        relation_name = None, ifc_rel_id = 11\<rparr>)]"
  by (simp add: ex_defs graph_defs)

text \<open>
  C9 fails in the code. The model has the wall \<open>E1\<close>, the storey \<open>S1\<close> and one
  containment record of \<open>E1\<close> in \<open>S1\<close> whose \<open>Name\<close> is not set, as in a file where
  the optional name of the relationship is left out. The graph has exactly two nodes
  and exactly one edge, from \<open>E1\<close> to \<open>S1\<close>, and its label is \<open>None\<close>, not
  \<open>is_contained_in\<close>: \<open>getattr\<close> takes its default only when the attribute is
  missing, and the attribute is there.
\<close>

theorem C9_unnamed_containment_is_labelled_none:
  "rel_Name (ex_contained 10 Null [ex_wall]) = Null \<and>
   number_of_nodes (fst (build_graph
      (ex_model [ex_wall, ex_storey] [ex_contained 10 Null [ex_wall]]))) = 2 \<and>
   number_of_edges (fst (build_graph
      (ex_model [ex_wall, ex_storey] [ex_contained 10 Null [ex_wall]]))) = 1 \<and>
   map fst (edge_dict (fst (build_graph
      (ex_model [ex_wall, ex_storey] [ex_contained 10 Null [ex_wall]])))) = [(''E1'', ''S1'')] \<and>
   map (relation_type \<circ> snd) (edge_dict (fst (build_graph
      (ex_model [ex_wall, ex_storey] [ex_contained 10 Null [ex_wall]])))) =
     [''IfcRelContainedInSpatialStructure''] \<and>
   map (relation_name \<circ> snd) (edge_dict (fst (build_graph
      (ex_model [ex_wall, ex_storey] [ex_contained 10 Null [ex_wall]])))) = [None]"
  using single_containment_graph
    [of ex_wall "''E1''" ex_storey "''S1''"
        "ex_model [ex_wall, ex_storey] [ex_contained 10 Null [ex_wall]]"
        "ex_contained 10 Null [ex_wall]"]
  by (simp add: ex_defs number_of_edges_def)

section \<open>The extractor, the artifact writer and the tracker: proofs\<close>

lemmas extract_defs = extract_properties_from_ifc_def ifcopenshell_open_def with_file_name_def
  property_row_def prop_value_of_def prop_row.extend_def

lemma ex_door_extract:
  "extract_properties_from_ifc ex_world ''up/door.ifc'' = ([], Inr ex_door_table)"
  by (simp add: extract_defs ex_world_def ex_door_model_def ex_door_def ex_door_table_def)

text \<open>
  C2, as amended. For every path whose file cannot be opened, the extractor prints the
  open error and returns the empty table, without raising and without extracting
  anything; this is the value it returns for a file that opens and has no element.
\<close>

theorem C2_open_failure_returns_empty_table:
  "ifcopenshell_open w p = None \<longrightarrow>
     extract_properties_from_ifc w p = ([Open_error p], Inr []) \<and>
     (ifcopenshell_open w' p' = Some m \<and> IfcElement m = [] \<longrightarrow>
        snd (extract_properties_from_ifc w' p') = snd (extract_properties_from_ifc w p))"
  by (simp add: extract_properties_from_ifc_def)

theorem C2_open_failure_returns_empty_table_witness:
  "ifcopenshell_open ex_world ''up/bad.ifc'' = None \<and>
   extract_properties_from_ifc ex_world ''up/bad.ifc'' = ([Open_error ''up/bad.ifc''], Inr []) \<and>
   ifcopenshell_open ex_world ''up/empty.ifc'' = Some (ex_model [] []) \<and>
   snd (extract_properties_from_ifc ex_world ''up/empty.ifc'') =
     snd (extract_properties_from_ifc ex_world ''up/bad.ifc'')"
  using C2_open_failure_returns_empty_table
    [of ex_world "''up/bad.ifc''" ex_world "''up/empty.ifc''" "ex_model [] []"]
  by (simp add: ifcopenshell_open_def ex_world_def ex_model_def)

text \<open>
  C2 as stated fails: a file that cannot be opened and a file that opens and has no
  elements give the same returned value, the empty table.
\<close>

theorem C2_open_failure_counterexample:
  "ifcopenshell_open ex_world ''up/bad.ifc'' = None \<and>
   ifcopenshell_open ex_world ''up/empty.ifc'' = Some (ex_model [] []) \<and>
   snd (extract_properties_from_ifc ex_world ''up/bad.ifc'') = Inr [] \<and>
   snd (extract_properties_from_ifc ex_world ''up/empty.ifc'') = Inr []"
  by (simp add: extract_properties_from_ifc_def ifcopenshell_open_def ex_world_def ex_model_def)

lemma inv_started:
  "tracker_inv relpath s \<Longrightarrow> f \<in> started s \<Longrightarrow>
   \<exists>t. parsing_status s f = Some t \<and> status t = Pending"
  unfolding tracker_inv_def by blast

lemma inv_running:
  "tracker_inv relpath s \<Longrightarrow> f \<in> running s \<Longrightarrow>
   \<exists>t. parsing_status s f = Some t \<and> status t = Processing"
  unfolding tracker_inv_def by blast

lemma inv_finishing:
  "tracker_inv relpath s \<Longrightarrow> finishing s f = Some outcome \<Longrightarrow>
   f \<notin> started s \<and> f \<notin> running s \<and>
   (\<exists>t. parsing_status s f = Some t \<and> result t = None \<and>
        status t = (if produced_both outcome then Completed else Failed))"
  unfolding tracker_inv_def by blast

lemma inv_settled:
  "tracker_inv relpath s \<Longrightarrow> parsing_status s f = Some t \<Longrightarrow> finishing s f = None \<Longrightarrow>
   (status t = Completed \<longrightarrow> artifacts_recorded relpath t) \<and>
   (status t \<noteq> Completed \<longrightarrow> result t = None)"
  unfolding tracker_inv_def by blast

lemma inv_intro:
  assumes "\<And>f. f \<in> started s \<Longrightarrow> \<exists>t. parsing_status s f = Some t \<and> status t = Pending"
    and "\<And>f. f \<in> running s \<Longrightarrow> \<exists>t. parsing_status s f = Some t \<and> status t = Processing"
    and "\<And>f outcome. finishing s f = Some outcome \<Longrightarrow>
           f \<notin> started s \<and> f \<notin> running s \<and>
           (\<exists>t. parsing_status s f = Some t \<and> result t = None \<and>
                status t = (if produced_both outcome then Completed else Failed))"
    and "\<And>f t. parsing_status s f = Some t \<Longrightarrow> finishing s f = None \<Longrightarrow>
           (status t = Completed \<longrightarrow> artifacts_recorded relpath t) \<and>
           (status t \<noteq> Completed \<longrightarrow> result t = None)"
  shows "tracker_inv relpath s"
  unfolding tracker_inv_def using assms by blast

lemma inv_known:
  assumes "tracker_inv relpath s" and "parsing_status s f = None"
  shows "f \<notin> started s" and "f \<notin> running s" and "finishing s f = None"
proof -
  show "f \<notin> started s" using inv_started [OF assms(1), of f] assms(2) by auto
  show "f \<notin> running s" using inv_running [OF assms(1), of f] assms(2) by auto
  show "finishing s f = None"
  proof (cases "finishing s f")
    case (Some outcome)
    then show ?thesis using inv_finishing [OF assms(1) Some] assms(2) by auto
  qed simp
qed

lemma inv_init:
  "tracker_inv relpath
     \<lparr>parsing_status = Map.empty, started = {}, running = {}, finishing = Map.empty\<rparr>"
  by (simp add: tracker_inv_def)

lemma inv_upload:
  assumes "tracker_inv relpath s" and "parsing_status s file_id = None"
  shows "tracker_inv relpath
       (s\<lparr>parsing_status := (parsing_status s)(file_id \<mapsto> new_task filename sc sw filepath),
          started := insert file_id (started s)\<rparr>)"
    (is "tracker_inv relpath ?s'")
proof (rule inv_intro)
  note k = inv_known [OF assms]
  fix f
  show "\<exists>t. parsing_status ?s' f = Some t \<and> status t = Pending" if "f \<in> started ?s'"
  proof (cases "f = file_id")
    case True
    then show ?thesis by (simp add: new_task_def)
  next
    case False
    then have "f \<in> started s" using that by simp
    from inv_started [OF assms(1) this] show ?thesis using False by simp
  qed
  show "\<exists>t. parsing_status ?s' f = Some t \<and> status t = Processing" if "f \<in> running ?s'"
  proof -
    have r: "f \<in> running s" using that by simp
    then have "f \<noteq> file_id" using k(2) by auto
    then show ?thesis using inv_running [OF assms(1) r] by simp
  qed
  show "f \<notin> started ?s' \<and> f \<notin> running ?s' \<and>
        (\<exists>t. parsing_status ?s' f = Some t \<and> result t = None \<and>
             status t = (if produced_both outcome then Completed else Failed))"
    if "finishing ?s' f = Some outcome" for outcome
  proof -
    have fi: "finishing s f = Some outcome" using that by simp
    then have ne: "f \<noteq> file_id" using k(3) by auto
    then show ?thesis using inv_finishing [OF assms(1) fi] by simp
  qed
  show "(status t = Completed \<longrightarrow> artifacts_recorded relpath t) \<and>
        (status t \<noteq> Completed \<longrightarrow> result t = None)"
    if "parsing_status ?s' f = Some t" and "finishing ?s' f = None" for t
  proof (cases "f = file_id")
    case True
    then have "t = new_task filename sc sw filepath" using that(1) by simp
    then show ?thesis by (simp add: new_task_def)
  next
    case False
    then have "parsing_status s f = Some t" "finishing s f = None" using that by simp_all
    then show ?thesis by (rule inv_settled [OF assms(1)])
  qed
qed

lemma inv_begin:
  assumes "tracker_inv relpath s" and "file_id \<in> started s"
  shows "tracker_inv relpath
       (s\<lparr>parsing_status := async_begin (parsing_status s) file_id,
          started := started s - {file_id},
          running := insert file_id (running s)\<rparr>)"
    (is "tracker_inv relpath ?s'")
proof (rule inv_intro)
  from inv_started [OF assms] obtain t0 where
    t0: "parsing_status s file_id = Some t0" "status t0 = Pending" by blast
  have nf: "finishing s file_id = None"
  proof (cases "finishing s file_id")
    case (Some outcome)
    then show ?thesis using inv_finishing [OF assms(1) Some] assms(2) by simp
  qed simp
  have r0: "result t0 = None" using inv_settled [OF assms(1) t0(1) nf] t0(2) by simp
  have self: "parsing_status ?s' file_id = Some (t0\<lparr>status := Processing\<rparr>)"
    using t0 by (simp add: async_begin_def)
  have other: "parsing_status ?s' g = parsing_status s g" if "g \<noteq> file_id" for g
    using t0 that by (simp add: async_begin_def)
  fix f
  show "\<exists>t. parsing_status ?s' f = Some t \<and> status t = Pending" if "f \<in> started ?s'"
  proof -
    have "f \<in> started s" "f \<noteq> file_id" using that by simp_all
    then show ?thesis using inv_started [OF assms(1), of f] other by simp
  qed
  show "\<exists>t. parsing_status ?s' f = Some t \<and> status t = Processing" if "f \<in> running ?s'"
  proof (cases "f = file_id")
    case True
    then show ?thesis using self by simp
  next
    case False
    then have "f \<in> running s" using that by simp
    then show ?thesis using inv_running [OF assms(1), of f] other [OF False] by simp
  qed
  show "f \<notin> started ?s' \<and> f \<notin> running ?s' \<and>
        (\<exists>t. parsing_status ?s' f = Some t \<and> result t = None \<and>
             status t = (if produced_both outcome then Completed else Failed))"
    if "finishing ?s' f = Some outcome" for outcome
  proof -
    have fi: "finishing s f = Some outcome" using that by simp
    then have ne: "f \<noteq> file_id" using nf by auto
    show ?thesis using inv_finishing [OF assms(1) fi] other [OF ne] ne by simp
  qed
  show "(status t = Completed \<longrightarrow> artifacts_recorded relpath t) \<and>
        (status t \<noteq> Completed \<longrightarrow> result t = None)"
    if "parsing_status ?s' f = Some t" and "finishing ?s' f = None" for t
  proof (cases "f = file_id")
    case True
    then have "t = t0\<lparr>status := Processing\<rparr>" using that(1) self by simp
    then show ?thesis using r0 by simp
  next
    case False
    then have "parsing_status s f = Some t" "finishing s f = None"
      using that other [OF False] by simp_all
    then show ?thesis by (rule inv_settled [OF assms(1)])
  qed
qed

lemma inv_sets_status:
  assumes "tracker_inv relpath s" and "file_id \<in> running s"
  shows "tracker_inv relpath
       (s\<lparr>parsing_status := async_set_status (parsing_status s) file_id outcome,
          running := running s - {file_id},
          finishing := (finishing s)(file_id \<mapsto> outcome)\<rparr>)"
    (is "tracker_inv relpath ?s'")
proof (rule inv_intro)
  from inv_running [OF assms] obtain t0 where
    t0: "parsing_status s file_id = Some t0" "status t0 = Processing" by blast
  have nf: "finishing s file_id = None"
  proof (cases "finishing s file_id")
    case (Some oc)
    then show ?thesis using inv_finishing [OF assms(1) Some] assms(2) by simp
  qed simp
  have r0: "result t0 = None" using inv_settled [OF assms(1) t0(1) nf] t0(2) by simp
  have ns: "file_id \<notin> started s"
    using inv_started [OF assms(1), of file_id] t0 by auto
  have self: "parsing_status ?s' file_id =
      Some (t0\<lparr>status := (if produced_both outcome then Completed else Failed)\<rparr>)"
    using t0 by (simp add: async_set_status_def)
  have other: "parsing_status ?s' g = parsing_status s g" if "g \<noteq> file_id" for g
    using t0 that by (simp add: async_set_status_def)
  fix f
  show "\<exists>t. parsing_status ?s' f = Some t \<and> status t = Pending" if "f \<in> started ?s'"
  proof -
    have "f \<in> started s" using that by simp
    moreover from this have "f \<noteq> file_id" using ns by auto
    ultimately show ?thesis using inv_started [OF assms(1), of f] other by simp
  qed
  show "\<exists>t. parsing_status ?s' f = Some t \<and> status t = Processing" if "f \<in> running ?s'"
  proof -
    have "f \<in> running s" "f \<noteq> file_id" using that by simp_all
    then show ?thesis using inv_running [OF assms(1), of f] other by simp
  qed
  show "f \<notin> started ?s' \<and> f \<notin> running ?s' \<and>
        (\<exists>t. parsing_status ?s' f = Some t \<and> result t = None \<and>
             status t = (if produced_both oc then Completed else Failed))"
    if "finishing ?s' f = Some oc" for oc
  proof (cases "f = file_id")
    case True
    then have "oc = outcome" using that by simp
    then show ?thesis using True ns self r0 by simp
  next
    case False
    then have fi: "finishing s f = Some oc" using that by simp
    show ?thesis using inv_finishing [OF assms(1) fi] other [OF False] False by simp
  qed
  show "(status t = Completed \<longrightarrow> artifacts_recorded relpath t) \<and>
        (status t \<noteq> Completed \<longrightarrow> result t = None)"
    if "parsing_status ?s' f = Some t" and "finishing ?s' f = None" for t
  proof -
    have ne: "f \<noteq> file_id" using that(2) by auto
    then have "parsing_status s f = Some t" "finishing s f = None"
      using that other [OF ne] by simp_all
    then show ?thesis by (rule inv_settled [OF assms(1)])
  qed
qed

lemma async_set_result_task:
  assumes "ps file_id = Some t" and "result t = None"
    and "status t = (if produced_both outcome then Completed else Failed)"
  shows "\<exists>t'. async_set_result relpath ps file_id outcome file_id = Some t' \<and>
           ((status t' = Completed \<and> artifacts_recorded relpath t') \<or>
            (status t' = Failed \<and> result t' = None))"
proof (cases outcome)
  case (Inl e)
  then show ?thesis using assms by (simp add: async_set_result_def produced_both_def)
next
  case (Inr r)
  show ?thesis
  proof (cases r)
    case None
    then show ?thesis using assms Inr by (simp add: async_set_result_def produced_both_def)
  next
    case (Some cj)
    obtain csv json where cj: "cj = (csv, json)" by (cases cj)
    show ?thesis
    proof (cases "csv \<noteq> [] \<and> json \<noteq> []")
      case True
      then show ?thesis
        using assms Inr Some cj
        by (auto simp: async_set_result_def produced_both_def artifacts_recorded_def)
    next
      case False
      then show ?thesis
        using assms Inr Some cj by (auto simp: async_set_result_def produced_both_def)
    qed
  qed
qed

lemma async_set_result_other:
  "g \<noteq> file_id \<Longrightarrow> async_set_result relpath ps file_id outcome g = ps g"
  by (auto simp: async_set_result_def split: sum.splits option.splits)

lemma inv_sets_result:
  assumes "tracker_inv relpath s" and "finishing s file_id = Some outcome"
  shows "tracker_inv relpath
       (s\<lparr>parsing_status := async_set_result relpath (parsing_status s) file_id outcome,
          finishing := (finishing s)(file_id := None)\<rparr>)"
    (is "tracker_inv relpath ?s'")
proof (rule inv_intro)
  from inv_finishing [OF assms] obtain t0 where
    ns: "file_id \<notin> started s" and nr: "file_id \<notin> running s"
    and t0: "parsing_status s file_id = Some t0" "result t0 = None"
      "status t0 = (if produced_both outcome then Completed else Failed)"
    by blast
  from async_set_result_task [where ps = "parsing_status s", OF t0, of relpath] obtain t' where
    t': "parsing_status ?s' file_id = Some t'"
      "(status t' = Completed \<and> artifacts_recorded relpath t') \<or>
       (status t' = Failed \<and> result t' = None)"
    by auto
  have other: "parsing_status ?s' g = parsing_status s g" if "g \<noteq> file_id" for g
    using that by (simp add: async_set_result_other)
  fix f
  show "\<exists>t. parsing_status ?s' f = Some t \<and> status t = Pending" if "f \<in> started ?s'"
  proof -
    have "f \<in> started s" using that by simp
    moreover from this have "f \<noteq> file_id" using ns by auto
    ultimately show ?thesis using inv_started [OF assms(1), of f] other by simp
  qed
  show "\<exists>t. parsing_status ?s' f = Some t \<and> status t = Processing" if "f \<in> running ?s'"
  proof -
    have "f \<in> running s" using that by simp
    moreover from this have "f \<noteq> file_id" using nr by auto
    ultimately show ?thesis using inv_running [OF assms(1), of f] other by simp
  qed
  show "f \<notin> started ?s' \<and> f \<notin> running ?s' \<and>
        (\<exists>t. parsing_status ?s' f = Some t \<and> result t = None \<and>
             status t = (if produced_both oc then Completed else Failed))"
    if "finishing ?s' f = Some oc" for oc
  proof -
    have ne: "f \<noteq> file_id" using that by (auto split: if_splits)
    then have fi: "finishing s f = Some oc" using that by simp
    show ?thesis using inv_finishing [OF assms(1) fi] other [OF ne] by simp
  qed
  show "(status t = Completed \<longrightarrow> artifacts_recorded relpath t) \<and>
        (status t \<noteq> Completed \<longrightarrow> result t = None)"
    if "parsing_status ?s' f = Some t" and "finishing ?s' f = None" for t
  proof (cases "f = file_id")
    case True
    then have "t = t'" using that(1) t'(1) by simp
    then show ?thesis using t'(2) by auto
  next
    case False
    then have "parsing_status s f = Some t" "finishing s f = None"
      using that other [OF False] by simp_all
    then show ?thesis by (rule inv_settled [OF assms(1)])
  qed
qed

lemma reachable_inv: "reachable relpath s \<Longrightarrow> tracker_inv relpath s"
  by (induction rule: reachable.induct)
     (simp_all add: inv_init inv_upload inv_begin inv_sets_status inv_sets_result)

text \<open>
  What does hold in every reachable state: a failed task has no location; a completed
  task has both once its worker is past the assignment of the result.
\<close>

lemma settled_tasks:
  assumes "reachable relpath s" and "parsing_status s file_id = Some t"
  shows "(status t = Failed \<longrightarrow> result t = None) \<and>
         (finishing s file_id = None \<longrightarrow> status t = Completed \<longrightarrow>
            (\<exists>csv json. csv \<noteq> [] \<and> json \<noteq> [] \<and>
               result t = Some \<lparr>csv_path = relpath csv, json_path = relpath json\<rparr>))"
proof (cases "finishing s file_id")
  case None
  from inv_settled [OF reachable_inv [OF assms(1)] assms(2) None]
  show ?thesis using None by (auto simp: artifacts_recorded_def)
next
  case (Some outcome)
  from inv_finishing [OF reachable_inv [OF assms(1)] Some]
  show ?thesis using Some assms(2) by auto
qed

lemmas ex_tracker_defs = ex_s0_def ex_s1_def ex_s2_def ex_s3_def ex_s4_def

lemma reachable_ex_s2: "reachable id ex_s2"
proof -
  have 0: "reachable id ex_s0" unfolding ex_s0_def by (rule reachable.init)
  have 1: "reachable id ex_s1" unfolding ex_s1_def
    by (rule reachable.upload [OF 0]) (simp add: ex_s0_def)
  show ?thesis unfolding ex_s2_def
    by (rule reachable.worker_begins [OF 1]) (simp add: ex_s1_def ex_s0_def)
qed

lemma reachable_ex_s3: "reachable id ex_s3"
  unfolding ex_s3_def
  by (rule reachable.worker_sets_status [OF reachable_ex_s2]) (simp add: ex_tracker_defs)

lemma reachable_ex_s4: "reachable id ex_s4"
  unfolding ex_s4_def
  by (rule reachable.worker_sets_result [OF reachable_ex_s3]) (simp add: ex_tracker_defs)

text \<open>
  C3 fails in the code. The file \<open>f1\<close> is uploaded and its worker has written both
  artifacts. After \<open>parsing_status[file_id]['status'] = 'completed'\<close> and before the
  assignment of the result, the task is completed and has no artifact location; the
  locations are there one assignment later.
\<close>

theorem C3_completed_before_result_is_recorded:
  "reachable id ex_s3 \<and>
   map_option status (parsing_status ex_s3 ''f1'') = Some Completed \<and>
   map_option result (parsing_status ex_s3 ''f1'') = Some None \<and>
   reachable id ex_s4 \<and>
   map_option status (parsing_status ex_s4 ''f1'') = Some Completed \<and>
   map_option result (parsing_status ex_s4 ''f1'') =
     Some (Some \<lparr>csv_path = ''cache/f1.csv'', json_path = ''cache/f1.json''\<rparr>)"
  using reachable_ex_s3 reachable_ex_s4
  by (simp add: ex_tracker_defs async_begin_def async_set_status_def async_set_result_def
        produced_both_def new_task_def)

lemma cleanup_files:
  "(remove_csv_ok env \<longrightarrow> files (fst (cleanup env w c j)) c = None) \<and>
   (remove_json_ok env \<longrightarrow> files (fst (cleanup env w c j)) j = None) \<and>
   (\<forall>p. p \<noteq> c \<and> p \<noteq> j \<longrightarrow> files (fst (cleanup env w c j)) p = files w p)"
  by (auto simp: cleanup_def remove_file_def path_exists_def)

lemma write_file_other: "p \<noteq> q \<Longrightarrow> files (write_file outcome w q c) p = files w p"
  by (cases outcome) (simp_all add: write_file_def)

lemma save_artifacts_failure:
  assumes "csv_write env \<noteq> Written \<or> json_write env \<noteq> Written"
  shows "snd (snd (save_artifacts env w df file_id c j)) = None \<and>
         (remove_csv_ok env \<longrightarrow> files (fst (save_artifacts env w df file_id c j)) c = None) \<and>
         (remove_json_ok env \<longrightarrow> files (fst (save_artifacts env w df file_id c j)) j = None) \<and>
         (\<forall>p. p \<noteq> c \<and> p \<noteq> j \<longrightarrow> files (fst (save_artifacts env w df file_id c j)) p = files w p)"
proof (cases "csv_write env = Written")
  case True
  then have j: "json_write env \<noteq> Written" using assms by simp
  let ?w1 = "write_file Written w c (Csv df)"
  let ?w2 = "write_file (json_write env) ?w1 j (Json df)"
  have eq: "save_artifacts env w df file_id c j =
          (fst (cleanup env ?w2 c j), Saved_csv c # Save_error file_id j # snd (cleanup env ?w2 c j), None)"
    using True j by (cases "json_write env") (simp_all add: save_artifacts_def split: prod.splits)
  show ?thesis
    using cleanup_files [of env ?w2 c j] by (simp add: eq write_file_other)
next
  case False
  let ?w1 = "write_file (csv_write env) w c (Csv df)"
  have eq: "save_artifacts env w df file_id c j =
          (fst (cleanup env ?w1 c j), Save_error file_id c # snd (cleanup env ?w1 c j), None)"
    using False by (cases "csv_write env") (simp_all add: save_artifacts_def split: prod.splits)
  show ?thesis
    using cleanup_files [of env ?w1 c j] by (simp add: eq write_file_other)
qed

lemma parse_ifc_to_files_saving:
  assumes "extract_properties_from_ifc w ifc_file_path = (lg0, Inr df)" and "df \<noteq> []"
    and "path_exists w output_dir \<or> makedirs_ok env"
  shows "\<exists>w1. files w1 = files w \<and>
           fst (parse_ifc_to_files env w ifc_file_path output_dir file_id) =
             fst (save_artifacts env w1 df file_id (path_join output_dir (file_id @ ''.csv''))
                    (path_join output_dir (file_id @ ''.json''))) \<and>
           snd (snd (parse_ifc_to_files env w ifc_file_path output_dir file_id)) =
             Inr (snd (snd (save_artifacts env w1 df file_id
                    (path_join output_dir (file_id @ ''.csv''))
                    (path_join output_dir (file_id @ ''.json'')))))"
proof (cases "path_exists w output_dir")
  case True
  show ?thesis
    by (rule exI [of _ w]) (use assms True in \<open>simp add: parse_ifc_to_files_def split: prod.splits\<close>)
next
  case False
  show ?thesis
    by (rule exI [of _ "w\<lparr>dirs := insert output_dir (dirs w)\<rparr>"])
       (use assms False in \<open>simp add: parse_ifc_to_files_def split: prod.splits\<close>)
qed

lemma async_after_parse:
  assumes "ps file_id = Some t"
  shows "fst (parse_ifc_file_async relpath env ps w file_id ifc_file_path output_dir) =
           fst (async_finish relpath (async_begin ps file_id) file_id
                  (snd (snd (parse_ifc_to_files env w ifc_file_path output_dir file_id)))) \<and>
         fst (snd (parse_ifc_file_async relpath env ps w file_id ifc_file_path output_dir)) =
           fst (parse_ifc_to_files env w ifc_file_path output_dir file_id)"
  using assms by (simp add: parse_ifc_file_async_def split: prod.splits)

text \<open>
  C10, as amended. When the table is not empty and saving either artifact fails,
  \<open>parse_ifc_to_files\<close> returns no location; each of the two artifact files whose
  removal succeeds (or that was never made) is absent afterwards; no other file is
  changed; and the task, which had no result, is marked failed with no location
  recorded.
\<close>

theorem C10_failed_save_records_no_location:
  assumes "extract_properties_from_ifc w ifc_file_path = (lg0, Inr df)" and "df \<noteq> []"
    and "path_exists w output_dir \<or> makedirs_ok env"
    and "csv_write env \<noteq> Written \<or> json_write env \<noteq> Written"
    and "ps file_id = Some t" and "result t = None"
  shows "snd (snd (parse_ifc_to_files env w ifc_file_path output_dir file_id)) = Inr None \<and>
         (remove_csv_ok env \<longrightarrow>
            files (fst (parse_ifc_to_files env w ifc_file_path output_dir file_id))
              (path_join output_dir (file_id @ ''.csv'')) = None) \<and>
         (remove_json_ok env \<longrightarrow>
            files (fst (parse_ifc_to_files env w ifc_file_path output_dir file_id))
              (path_join output_dir (file_id @ ''.json'')) = None) \<and>
         (\<forall>p. p \<noteq> path_join output_dir (file_id @ ''.csv'') \<and>
              p \<noteq> path_join output_dir (file_id @ ''.json'') \<longrightarrow>
              files (fst (parse_ifc_to_files env w ifc_file_path output_dir file_id)) p = files w p) \<and>
         fst (snd (parse_ifc_file_async relpath env ps w file_id ifc_file_path output_dir)) =
           fst (parse_ifc_to_files env w ifc_file_path output_dir file_id) \<and>
         map_option status
           (fst (parse_ifc_file_async relpath env ps w file_id ifc_file_path output_dir) file_id) =
           Some Failed \<and>
         map_option result
           (fst (parse_ifc_file_async relpath env ps w file_id ifc_file_path output_dir) file_id) =
           Some None"
proof -
  let ?c = "path_join output_dir (file_id @ ''.csv'')"
  let ?j = "path_join output_dir (file_id @ ''.json'')"
  from parse_ifc_to_files_saving [OF assms(1-3), of file_id] obtain w1 where
    w1: "files w1 = files w"
      "fst (parse_ifc_to_files env w ifc_file_path output_dir file_id) =
         fst (save_artifacts env w1 df file_id ?c ?j)"
      "snd (snd (parse_ifc_to_files env w ifc_file_path output_dir file_id)) =
         Inr (snd (snd (save_artifacts env w1 df file_id ?c ?j)))"
    by blast
  note s = save_artifacts_failure [OF assms(4), of w1 df file_id ?c ?j]
  have out: "snd (snd (parse_ifc_to_files env w ifc_file_path output_dir file_id)) = Inr None"
    using s w1(3) by simp
  have task: "map_option status (fst (async_finish relpath (async_begin ps file_id) file_id (Inr None)) file_id) = Some Failed \<and>
              map_option result (fst (async_finish relpath (async_begin ps file_id) file_id (Inr None)) file_id) = Some None"
    using assms(5,6)
    by (simp add: async_finish_def async_set_status_def async_set_result_def produced_both_def
          async_begin_def)
  show ?thesis
    using s w1 out task async_after_parse [where ps = ps and file_id = file_id, OF assms(5),
      of relpath env w ifc_file_path output_dir]
    by simp
qed

lemmas parse_defs = parse_ifc_to_files_def save_artifacts_def cleanup_def write_file_def
  remove_file_def path_exists_def path_join_def

theorem C10_failed_save_records_no_location_witness:
  "snd (snd (parse_ifc_to_files (ex_env Written Failed_partial True True) ex_world
               ''up/door.ifc'' ''cache'' ''f1'')) = Inr None \<and>
   files (fst (parse_ifc_to_files (ex_env Written Failed_partial True True) ex_world
               ''up/door.ifc'' ''cache'' ''f1'')) ''cache/f1.csv'' = None \<and>
   files (fst (parse_ifc_to_files (ex_env Written Failed_partial True True) ex_world
               ''up/door.ifc'' ''cache'' ''f1'')) ''cache/f1.json'' = None \<and>
   map_option status
     (fst (parse_ifc_file_async id (ex_env Written Failed_partial True True) ex_tasks ex_world
             ''f1'' ''up/door.ifc'' ''cache'') ''f1'') = Some Failed \<and>
   map_option result
     (fst (parse_ifc_file_async id (ex_env Written Failed_partial True True) ex_tasks ex_world
             ''f1'' ''up/door.ifc'' ''cache'') ''f1'') = Some None"
  using C10_failed_save_records_no_location
    [of ex_world "''up/door.ifc''" "[]" ex_door_table "''cache''"
        "ex_env Written Failed_partial True True" ex_tasks "''f1''"
        "new_task ''door.ifc'' ''IFC4'' ''CAD'' ''up/door.ifc''" id]
  by (simp add: ex_door_extract ex_env_def ex_tasks_def new_task_def ex_door_table_def
        path_join_def)

text \<open>
  C10 as stated fails: the write of the flat export fails leaving a partial file, and
  its removal fails too (the source prints the error and goes on); the partial file is
  still there.
\<close>

theorem C10_partial_file_left_counterexample:
  "snd (snd (parse_ifc_to_files (ex_env Failed_partial Written False True) ex_world
               ''up/door.ifc'' ''cache'' ''f1'')) = Inr None \<and>
   files ex_world ''cache/f1.csv'' = None \<and>
   files (fst (parse_ifc_to_files (ex_env Failed_partial Written False True) ex_world
               ''up/door.ifc'' ''cache'' ''f1'')) ''cache/f1.csv'' = Some Garbage"
  apply (simp add: parse_ifc_to_files_def ex_door_extract ex_door_table_def)
  apply (simp add: parse_defs ex_env_def ex_world_def)
  done

section \<open>Resolving a table: proofs\<close>

lemma tiers_logged_append [simp]: "tiers_logged (a @ b) = tiers_logged a @ tiers_logged b"
  by (simp add: tiers_logged_def)

lemma tiers_logged_Cons [simp]: "tiers_logged (e # b) = tier_of_event e @ tiers_logged b"
  by (simp add: tiers_logged_def)

lemma tiers_logged_Nil [simp]: "tiers_logged [] = []"
  by (simp add: tiers_logged_def)

lemma tiers_extract [simp]: "tiers_logged (fst (extract_properties_from_ifc w p)) = []"
  by (simp add: extract_properties_from_ifc_def split: option.splits sum.splits)

lemma tiers_load_from_ifc:
  "tiers_logged (fst (snd (snd (load_from_ifc env file_id fi cf w)))) = [Fresh]"
proof -
  have *: "\<And>p lg r. extract_properties_from_ifc w p = (lg, r) \<Longrightarrow> tiers_logged lg = []"
    using tiers_extract by (metis fst_conv)
  show ?thesis
    by (auto simp: load_from_ifc_def Let_def * split: option.splits prod.splits sum.splits)
qed

lemma process_persisted:
  "tier_persisted env fi w = Some t \<Longrightarrow>
   process_single_ifc_file env file_id fi cf w =
     (fi\<lparr>processed_data_df := Some t\<rparr>, w, [Cache_loaded file_id (length t)],
      Inr (file_id, filename_of fi, t))"
  by (auto simp: process_single_ifc_file_def tier_persisted_def filename_of_def Let_def
        split: option.splits if_splits)

lemma process_memory:
  "tier_persisted env fi w = None \<Longrightarrow> processed_data_df fi = Some t \<Longrightarrow>
   process_single_ifc_file env file_id fi cf w =
     (fi, w,
      (if read_attempted fi w then [Cache_read_error (the (cached_df_path fi)) file_id] else [])
        @ [Memory_used file_id (length t)],
      Inr (file_id, filename_of fi, t))"
  by (auto simp: process_single_ifc_file_def tier_persisted_def filename_of_def Let_def
        read_attempted_def split: option.splits if_splits)

lemma process_fresh:
  "tier_persisted env fi w = None \<Longrightarrow> processed_data_df fi = None \<Longrightarrow>
   load_from_ifc env file_id fi cf w = (fi', w', lg, r) \<Longrightarrow>
   process_single_ifc_file env file_id fi cf w =
     (fi', w',
      (if read_attempted fi w then [Cache_read_error (the (cached_df_path fi)) file_id] else [])
        @ lg,
      map_sum id (\<lambda>t. (file_id, filename_of fi, t)) r)"
  by (cases r)
     (auto simp: process_single_ifc_file_def tier_persisted_def filename_of_def Let_def
        read_attempted_def split: option.splits if_splits)

text \<open>
  C5. What \<open>process_single_ifc_file\<close> returns is the first table that the tiers
  give, tried in the order persisted, memory, fresh: the function of the specification.
  The tiers its log shows are, in this order: the persisted tier when a read was
  attempted; then, only if the persisted tier gave nothing, the memory tier; and the
  fresh extraction only if the memory tier gave nothing either. A failed read of the
  persisted table is logged and the later tiers decide.
\<close>

theorem C5_tiers_in_order:
  "snd (snd (snd (process_single_ifc_file env file_id fi cf w))) =
     map_sum id (\<lambda>t. (file_id, filename_of fi, t)) (resolve_spec env file_id fi cf w) \<and>
   tiers_logged (fst (snd (snd (process_single_ifc_file env file_id fi cf w)))) =
     (if read_attempted fi w then [Persisted] else []) @
     (case tier_persisted env fi w of
        Some t \<Rightarrow> []
      | None \<Rightarrow> (case tier_memory fi of Some t \<Rightarrow> [Memory] | None \<Rightarrow> [Fresh]))"
proof (cases "tier_persisted env fi w")
  case (Some t)
  then have "read_attempted fi w"
    by (auto simp: tier_persisted_def read_attempted_def split: option.splits if_splits)
  then show ?thesis
    using Some by (simp add: process_persisted resolve_spec_def)
next
  case None
  show ?thesis
  proof (cases "processed_data_df fi")
    case (Some t)
    then show ?thesis
      using None by (simp add: process_memory resolve_spec_def tier_memory_def)
  next
    case mem: None
    obtain fi' w' lg r where l: "load_from_ifc env file_id fi cf w = (fi', w', lg, r)"
      by (cases "load_from_ifc env file_id fi cf w") auto
    have "tiers_logged lg = [Fresh]"
      using tiers_load_from_ifc [of env file_id fi cf w] by (simp add: l)
    then show ?thesis
      using None mem l
      by (simp add: process_fresh resolve_spec_def tier_memory_def tier_fresh_def)
  qed
qed

lemma path_join_nonempty: "b \<noteq> [] \<Longrightarrow> path_join a b \<noteq> []"
  by (simp add: path_join_def)

lemma cache_key_nonempty: "cache_key cf file_id \<noteq> []"
  by (simp add: cache_key_def path_join_nonempty)

lemma load_from_ifc_cases:
  assumes "cached_df_path fi = None"
  shows "(\<forall>e. \<exists>lg. load_from_ifc e file_id fi cf w = (fi, w, lg, Inr [])) \<or>
         (\<forall>e. \<exists>lg. load_from_ifc e file_id fi cf w =
                   (fi, w, lg, if app_ctx e then Inr [] else Inl RuntimeError)) \<or>
         (\<exists>df. \<forall>e. \<exists>fi' w' lg. load_from_ifc e file_id fi cf w = (fi', w', lg, Inr df) \<and>
                   processed_data_df fi' = Some df \<and> cache_ok fi' w' \<and>
                   original_filename fi' = original_filename fi)"
proof (cases "saved_path fi")
  case None
  then show ?thesis by (simp add: load_from_ifc_def)
next
  case (Some filepath)
  show ?thesis
  proof (cases "filepath = [] \<or> \<not> path_exists w filepath")
    case True
    then show ?thesis using Some by (auto simp: load_from_ifc_def)
  next
    case False
    obtain lg0 r where ex: "extract_properties_from_ifc w filepath = (lg0, r)"
      by (cases "extract_properties_from_ifc w filepath") auto
    show ?thesis
    proof (cases r)
      case (Inl parse_e)
      then have "\<forall>e. \<exists>lg. load_from_ifc e file_id fi cf w =
                   (fi, w, lg, if app_ctx e then Inr [] else Inl RuntimeError)"
        using Some False ex by (simp add: load_from_ifc_def)
      then show ?thesis by blast
    next
      case (Inr df)
      have "\<forall>e. \<exists>fi' w' lg. load_from_ifc e file_id fi cf w = (fi', w', lg, Inr df) \<and>
                   processed_data_df fi' = Some df \<and> cache_ok fi' w' \<and>
                   original_filename fi' = original_filename fi"
        using Some False ex Inr assms
        by (auto simp: load_from_ifc_def Let_def cache_ok_def write_file_def cache_key_nonempty)
      then show ?thesis by blast
    qed
  qed
qed

lemma cache_ok_cold: "cache_ok fi w \<Longrightarrow> processed_data_df fi = None \<Longrightarrow> cached_df_path fi = None"
  by (auto simp: cache_ok_def split: option.splits file_content.splits)

lemma cache_ok_persisted:
  "cache_ok fi w \<Longrightarrow> tier_persisted env fi w = Some t \<Longrightarrow> processed_data_df fi = Some t"
  by (auto simp: cache_ok_def tier_persisted_def read_pickle_def
        split: option.splits file_content.splits if_splits)

lemma warm_resolve:
  assumes "cache_ok fi w" and "processed_data_df fi = Some t"
  shows "\<exists>lg. process_single_ifc_file env file_id fi cf w =
           (fi, w, lg, Inr (file_id, filename_of fi, t))"
proof (cases "tier_persisted env fi w")
  case None
  then show ?thesis using assms(2) by (simp add: process_memory)
next
  case (Some t')
  then have "t' = t" using cache_ok_persisted [OF assms(1) Some] assms(2) by simp
  then show ?thesis using Some assms(2) by (simp add: process_persisted)
qed

lemma cold_persisted: "cached_df_path fi = None \<Longrightarrow> tier_persisted env fi w = None"
  by (simp add: tier_persisted_def)

lemma cold_read: "cached_df_path fi = None \<Longrightarrow> \<not> read_attempted fi w"
  by (simp add: read_attempted_def)

lemma process_preserves_cache_ok:
  assumes "cache_ok fi w"
    and "process_single_ifc_file env file_id fi cf w = (fi', w', lg, out)"
  shows "cache_ok fi' w'"
proof (cases "processed_data_df fi")
  case (Some t)
  from warm_resolve [OF assms(1) Some, of env file_id cf] show ?thesis
    using assms by auto
next
  case None
  then have c: "cached_df_path fi = None" using assms(1) by (rule cache_ok_cold [rotated])
  obtain fi1 w1 lg1 r where l: "load_from_ifc env file_id fi cf w = (fi1, w1, lg1, r)"
    by (cases "load_from_ifc env file_id fi cf w") auto
  have p: "process_single_ifc_file env file_id fi cf w =
      (fi1, w1, lg1, map_sum id (\<lambda>t. (file_id, filename_of fi, t)) r)"
    using process_fresh [OF cold_persisted [OF c] None l] cold_read [OF c] by simp
  from load_from_ifc_cases [OF c, of file_id cf w] have "cache_ok fi1 w1"
    using l assms(1) by (elim disjE) (auto dest: spec [of _ env])
  then show ?thesis using p assms(2) by simp
qed

lemma reachable_cache_ok: "cache_reachable file_id cf s \<Longrightarrow> cache_ok (fst s) (snd s)"
proof (induction rule: cache_reachable.induct)
  case (uploaded filename filepath sc sw w)
  then show ?case by (simp add: cache_ok_def new_file_info_def)
next
  case (resolved fi w env fi' w' lg out)
  then show ?case using process_preserves_cache_ok by auto
next
  case (elsewhere fi w w')
  then show ?case by (auto simp: cache_ok_def split: option.splits)
qed

text \<open>
  C6. From any state one file's cache can reach, a call of \<open>process_single_ifc_file\<close>
  followed at once by a second one, whatever the surroundings of each, gives twice the
  same table: if both return, they return the same triple, and when both are called
  with or both without an application context, the outcomes are equal.
\<close>

theorem C6_second_resolve_returns_same_table:
  assumes "cache_reachable file_id cf (fi, w)"
    and "process_single_ifc_file e1 file_id fi cf w = (fi1, w1, lg1, out1)"
    and "process_single_ifc_file e2 file_id fi1 cf w1 = (fi2, w2, lg2, out2)"
  shows "(app_ctx e1 = app_ctx e2 \<longrightarrow> out2 = out1) \<and>
         (\<forall>r1 r2. out1 = Inr r1 \<and> out2 = Inr r2 \<longrightarrow> r2 = r1)"
proof -
  have ok: "cache_ok fi w" using reachable_cache_ok [OF assms(1)] by simp
  have "(app_ctx e1 = app_ctx e2 \<longrightarrow> out2 = out1) \<and> (\<forall>r1 r2. out1 = Inr r1 \<and> out2 = Inr r2 \<longrightarrow> r2 = r1)"
  proof (cases "processed_data_df fi")
    case (Some t)
    from warm_resolve [OF ok Some, of e1 file_id cf] assms(2)
    have 1: "fi1 = fi" "w1 = w" "out1 = Inr (file_id, filename_of fi, t)" by auto
    from warm_resolve [OF ok Some, of e2 file_id cf] assms(3) 1
    have "out2 = Inr (file_id, filename_of fi, t)" by auto
    then show ?thesis using 1 by simp
  next
    case None
    then have c: "cached_df_path fi = None" using ok by (rule cache_ok_cold [rotated])
    have p: "\<And>e fi' w' lg r. load_from_ifc e file_id fi cf w = (fi', w', lg, r) \<Longrightarrow>
        process_single_ifc_file e file_id fi cf w =
          (fi', w', lg, map_sum id (\<lambda>t. (file_id, filename_of fi, t)) r)"
      using process_fresh [OF cold_persisted [OF c] None] cold_read [OF c] by simp
    from load_from_ifc_cases [OF c, of file_id cf w] show ?thesis
    proof (elim disjE)
      assume a: "\<forall>e. \<exists>lg. load_from_ifc e file_id fi cf w = (fi, w, lg, Inr [])"
      from a obtain la where "load_from_ifc e1 file_id fi cf w = (fi, w, la, Inr [])" by blast
      from p [OF this] assms(2)
      have 1: "fi1 = fi" "w1 = w" "out1 = Inr (file_id, filename_of fi, [])" by auto
      from a obtain lb where "load_from_ifc e2 file_id fi cf w = (fi, w, lb, Inr [])" by blast
      from p [OF this] assms(3) 1 have "out2 = Inr (file_id, filename_of fi, [])" by auto
      then show ?thesis using 1 by simp
    next
      assume a: "\<forall>e. \<exists>lg. load_from_ifc e file_id fi cf w =
                   (fi, w, lg, if app_ctx e then Inr [] else Inl RuntimeError)"
      from a obtain la where "load_from_ifc e1 file_id fi cf w =
          (fi, w, la, if app_ctx e1 then Inr [] else Inl RuntimeError)" by blast
      from p [OF this] assms(2)
      have 1: "fi1 = fi" "w1 = w"
        "out1 = (if app_ctx e1 then Inr (file_id, filename_of fi, []) else Inl RuntimeError)"
        by auto
      from a obtain lb where "load_from_ifc e2 file_id fi cf w =
          (fi, w, lb, if app_ctx e2 then Inr [] else Inl RuntimeError)" by blast
      from p [OF this] assms(3) 1
      have "out2 = (if app_ctx e2 then Inr (file_id, filename_of fi, []) else Inl RuntimeError)"
        by auto
      then show ?thesis using 1 by auto
    next
      assume "\<exists>df. \<forall>e. \<exists>fi' w' lg. load_from_ifc e file_id fi cf w = (fi', w', lg, Inr df) \<and>
                   processed_data_df fi' = Some df \<and> cache_ok fi' w' \<and>
                   original_filename fi' = original_filename fi"
      then obtain df fi' w' la where l: "load_from_ifc e1 file_id fi cf w = (fi', w', la, Inr df)"
        and m: "processed_data_df fi' = Some df" "cache_ok fi' w'"
          "original_filename fi' = original_filename fi"
        by blast
      from p [OF l] assms(2)
      have 1: "fi1 = fi'" "w1 = w'" "out1 = Inr (file_id, filename_of fi, df)" by auto
      have n: "filename_of fi' = filename_of fi" using m(3) by (simp add: filename_of_def)
      from warm_resolve [OF m(2) m(1), of e2 file_id cf] assms(3) 1 n
      have "out2 = Inr (file_id, filename_of fi, df)" by auto
      then show ?thesis using 1 by simp
    qed
  qed
  then show ?thesis .
qed

lemma ex_paths:
  "path_exists ex_world ''up/door.ifc''" "path_exists ex_world ''up/empty.ifc''"
  "files ex_world ''cache/f_1_df.pkl'' = None" "files ex_world ''cache/f2_df.pkl'' = None"
  by (simp_all add: path_exists_def ex_world_def)

lemma ex_empty_extract:
  "extract_properties_from_ifc ex_world ''up/empty.ifc'' = ([], Inr [])"
  by (simp add: extract_defs ex_world_def ex_model_def)

lemma ex_cache_keys:
  "cache_key ''cache'' ''f-1'' = ''cache/f_1_df.pkl''"
  "cache_key ''cache'' ''f2'' = ''cache/f2_df.pkl''"
  by (simp_all add: cache_key_def path_join_def)

theorem C5_tiers_in_order_witness:
  "snd (snd (snd (process_single_ifc_file (ex_renv True Written False) ''f-1''
      (ex_info ''door'' (Some ex_door_table) (Some ''cache/f_1_df.pkl'')) ''cache''
      (ex_cache_world Garbage)))) = Inr (''f-1'', ''door.ifc'', ex_door_table) \<and>
   tiers_logged (fst (snd (snd (process_single_ifc_file (ex_renv True Written False) ''f-1''
      (ex_info ''door'' (Some ex_door_table) (Some ''cache/f_1_df.pkl'')) ''cache''
      (ex_cache_world Garbage))))) = [Persisted, Memory]"
  using C5_tiers_in_order
    [of "ex_renv True Written False" "''f-1''"
        "ex_info ''door'' (Some ex_door_table) (Some ''cache/f_1_df.pkl'')" "''cache''"
        "ex_cache_world Garbage"]
  by (simp add: resolve_spec_def tier_persisted_def tier_memory_def read_pickle_def
        read_attempted_def path_exists_def ex_cache_world_def ex_info_def new_file_info_def
        filename_of_def)

lemma ex_first_resolve:
  "process_single_ifc_file (ex_renv True Written False) ''f-1'' (ex_info ''door'' None None)
     ''cache'' ex_world =
   ((ex_info ''door'' (Some ex_door_table) (Some ''cache/f_1_df.pkl'')),
    ex_cache_world (Pickle ex_door_table),
    [Loading_from_ifc ''f-1'', Parsed_ifc ''f-1'' 1, Cached_to_disk ''cache/f_1_df.pkl''],
    Inr (''f-1'', ''door.ifc'', ex_door_table))"
  using ex_paths(1)
  by (simp add: process_single_ifc_file_def load_from_ifc_def ex_info_def new_file_info_def
        ex_door_extract ex_cache_keys ex_renv_def write_file_def ex_cache_world_def
        ex_door_table_def Let_def)

theorem C6_second_resolve_returns_same_table_witness:
  "cache_reachable ''f-1'' ''cache'' (ex_info ''door'' None None, ex_world) \<and>
   snd (snd (snd (process_single_ifc_file (ex_renv True Written False) ''f-1''
      (ex_info ''door'' None None) ''cache'' ex_world))) =
     Inr (''f-1'', ''door.ifc'', ex_door_table) \<and>
   snd (snd (snd (process_single_ifc_file (ex_renv False Failed_nofile False) ''f-1''
      (ex_info ''door'' (Some ex_door_table) (Some ''cache/f_1_df.pkl'')) ''cache''
      (ex_cache_world (Pickle ex_door_table))))) =
     Inr (''f-1'', ''door.ifc'', ex_door_table)"
proof -
  let ?P2 = "process_single_ifc_file (ex_renv False Failed_nofile False) ''f-1''
      (ex_info ''door'' (Some ex_door_table) (Some ''cache/f_1_df.pkl'')) ''cache''
      (ex_cache_world (Pickle ex_door_table))"
  have i: "ex_info ''door'' None None = new_file_info ''door.ifc'' ''up/door.ifc'' ''IFC4'' ''CAD''"
    by (simp add: ex_info_def new_file_info_def)
  have r: "cache_reachable ''f-1'' ''cache'' (ex_info ''door'' None None, ex_world)"
    unfolding i by (rule cache_reachable.uploaded)
  have 2: "?P2 = (fst ?P2, fst (snd ?P2), fst (snd (snd ?P2)), snd (snd (snd ?P2)))"
    by simp
  have e: "app_ctx (ex_renv True Written False) = app_ctx (ex_renv False Failed_nofile False)"
    by (simp add: ex_renv_def)
  from C6_second_resolve_returns_same_table [OF r ex_first_resolve 2] e
  have "snd (snd (snd ?P2)) = Inr (''f-1'', ''door.ifc'', ex_door_table)"
    by blast
  then show ?thesis using r ex_first_resolve by simp
qed

lemma load_from_ifc_extracted:
  assumes "saved_path fi = Some filepath" and "filepath \<noteq> []" and "path_exists w filepath"
    and "extract_properties_from_ifc w filepath = (lg0, Inr df)"
  shows "\<exists>lg1. load_from_ifc env file_id fi cf w =
           (if df = [] then fi\<lparr>processed_data_df := Some df\<rparr>
            else if to_pickle env = Written
              then fi\<lparr>processed_data_df := Some df, cached_df_path := Some (cache_key cf file_id)\<rparr>
              else fi\<lparr>processed_data_df := Some df\<rparr>,
            if df = [] then w
            else write_file (to_pickle env) w (cache_key cf file_id) (Pickle df),
            lg1, Inr df)"
proof (cases "df = []")
  case True
  then show ?thesis using assms by (simp add: load_from_ifc_def)
next
  case False
  show ?thesis
  proof (cases "to_pickle env = Written")
    case True
    then show ?thesis using assms False by (simp add: load_from_ifc_def Let_def)
  next
    case nw: False
    then show ?thesis using assms False by (simp add: load_from_ifc_def Let_def)
  qed
qed

lemma write_file_written: "files (write_file Written w q c) q = Some c"
  by (simp add: write_file_def)

text \<open>
  C8. When neither the persisted nor the memory tier gives a table and the extractor
  returns a table, that table is attached to the entry and returned. If it is empty,
  nothing is written: the file store and the recorded cache location are unchanged. If
  it is not empty, the only file written is the one at the key made from the file id
  alone (and the cache folder), and with a working write that file holds the table and
  the key is recorded. A write that fails is the persistence failure of the
  specification: no location is recorded and the table stays in memory.
\<close>

theorem C8_empty_table_kept_in_memory_only:
  assumes "tier_persisted env fi w = None" and "tier_memory fi = None"
    and "saved_path fi = Some filepath" and "filepath \<noteq> []" and "path_exists w filepath"
    and "extract_properties_from_ifc w filepath = (lg0, Inr df)"
    and "process_single_ifc_file env file_id fi cf w = (fi', w', lg, out)"
  shows "out = Inr (file_id, filename_of fi, df) \<and> processed_data_df fi' = Some df \<and>
         (df = [] \<longrightarrow> w' = w \<and> cached_df_path fi' = cached_df_path fi) \<and>
         (df \<noteq> [] \<longrightarrow>
            (\<forall>p. p \<noteq> cache_key cf file_id \<longrightarrow> files w' p = files w p) \<and>
            (to_pickle env = Written \<longrightarrow>
               files w' (cache_key cf file_id) = Some (Pickle df) \<and>
               cached_df_path fi' = Some (cache_key cf file_id)) \<and>
            (to_pickle env \<noteq> Written \<longrightarrow> cached_df_path fi' = cached_df_path fi))"
proof -
  from load_from_ifc_extracted [OF assms(3-6), of env file_id cf] obtain lg1 where
    l: "load_from_ifc env file_id fi cf w =
           (if df = [] then fi\<lparr>processed_data_df := Some df\<rparr>
            else if to_pickle env = Written
              then fi\<lparr>processed_data_df := Some df, cached_df_path := Some (cache_key cf file_id)\<rparr>
              else fi\<lparr>processed_data_df := Some df\<rparr>,
            if df = [] then w
            else write_file (to_pickle env) w (cache_key cf file_id) (Pickle df),
            lg1, Inr df)"
    by blast
  have m: "processed_data_df fi = None" using assms(2) by (simp add: tier_memory_def)
  note p = process_fresh [OF assms(1) m l]
  have out: "out = Inr (file_id, filename_of fi, df)"
    using p assms(7) by simp
  have fi': "fi' = (if df = [] then fi\<lparr>processed_data_df := Some df\<rparr>
            else if to_pickle env = Written
              then fi\<lparr>processed_data_df := Some df, cached_df_path := Some (cache_key cf file_id)\<rparr>
              else fi\<lparr>processed_data_df := Some df\<rparr>)"
    using p assms(7) by simp
  have w': "w' = (if df = [] then w
            else write_file (to_pickle env) w (cache_key cf file_id) (Pickle df))"
    using p assms(7) by simp
  show ?thesis
    by (simp add: out fi' w' write_file_other write_file_written)
qed

theorem C8_empty_table_kept_in_memory_only_witness:
  "extract_properties_from_ifc ex_world ''up/empty.ifc'' = ([], Inr []) \<and>
   processed_data_df (fst (process_single_ifc_file (ex_renv True Written False) ''f2''
      (ex_info ''empty'' None None) ''cache'' ex_world)) = Some [] \<and>
   fst (snd (process_single_ifc_file (ex_renv True Written False) ''f2''
      (ex_info ''empty'' None None) ''cache'' ex_world)) = ex_world \<and>
   cached_df_path (fst (process_single_ifc_file (ex_renv True Written False) ''f2''
      (ex_info ''empty'' None None) ''cache'' ex_world)) = None \<and>
   extract_properties_from_ifc ex_world ''up/door.ifc'' = ([], Inr ex_door_table) \<and>
   ex_door_table \<noteq> [] \<and>
   processed_data_df (fst (process_single_ifc_file (ex_renv True Written False) ''f-1''
      (ex_info ''door'' None None) ''cache'' ex_world)) = Some ex_door_table \<and>
   files (fst (snd (process_single_ifc_file (ex_renv True Written False) ''f-1''
      (ex_info ''door'' None None) ''cache'' ex_world))) ''cache/f_1_df.pkl'' =
     Some (Pickle ex_door_table) \<and>
   cached_df_path (fst (process_single_ifc_file (ex_renv True Written False) ''f-1''
      (ex_info ''door'' None None) ''cache'' ex_world)) = Some ''cache/f_1_df.pkl'' \<and>
   files (fst (snd (process_single_ifc_file (ex_renv True Written False) ''f-1''
      (ex_info ''door'' None None) ''cache'' ex_world))) ''up/door.ifc'' =
     files ex_world ''up/door.ifc''"
proof -
  let ?P = "process_single_ifc_file (ex_renv True Written False) ''f2''
          (ex_info ''empty'' None None) ''cache'' ex_world"
  let ?Q = "process_single_ifc_file (ex_renv True Written False) ''f-1''
          (ex_info ''door'' None None) ''cache'' ex_world"
  have p: "?P = (fst ?P, fst (snd ?P), fst (snd (snd ?P)), snd (snd (snd ?P)))" by simp
  have q: "?Q = (fst ?Q, fst (snd ?Q), fst (snd (snd ?Q)), snd (snd (snd ?Q)))" by simp
  have h: "tier_persisted (ex_renv True Written False) (ex_info ''empty'' None None) ex_world = None"
    "tier_memory (ex_info ''empty'' None None) = None"
    "saved_path (ex_info ''empty'' None None) = Some ''up/empty.ifc''"
    by (simp_all add: tier_persisted_def tier_memory_def ex_info_def new_file_info_def)
  have c: "cached_df_path (ex_info ''empty'' None None) = None"
    by (simp add: ex_info_def new_file_info_def)
  have h': "tier_persisted (ex_renv True Written False) (ex_info ''door'' None None) ex_world = None"
    "tier_memory (ex_info ''door'' None None) = None"
    "saved_path (ex_info ''door'' None None) = Some ''up/door.ifc''"
    by (simp_all add: tier_persisted_def tier_memory_def ex_info_def new_file_info_def)
  have e: "to_pickle (ex_renv True Written False) = Written" by (simp add: ex_renv_def)
  have ne: "ex_door_table \<noteq> []" by (simp add: ex_door_table_def)
  from C8_empty_table_kept_in_memory_only [OF h _ ex_paths(2) ex_empty_extract p]
  have 1: "processed_data_df (fst ?P) = Some [] \<and> fst (snd ?P) = ex_world \<and>
           cached_df_path (fst ?P) = None"
    by (simp add: c)
  from C8_empty_table_kept_in_memory_only [OF h' _ ex_paths(1) ex_door_extract q]
  have 2: "processed_data_df (fst ?Q) = Some ex_door_table \<and>
           files (fst (snd ?Q)) ''cache/f_1_df.pkl'' = Some (Pickle ex_door_table) \<and>
           cached_df_path (fst ?Q) = Some ''cache/f_1_df.pkl'' \<and>
           files (fst (snd ?Q)) ''up/door.ifc'' = files ex_world ''up/door.ifc''"
    using e ne by (simp add: ex_cache_keys)
  show ?thesis using 1 2 ne by (simp add: ex_empty_extract ex_door_extract)
qed

text \<open>
  A persistence failure: the table is not empty and the write of the pickle fails. The
  table is returned, nothing is at the key and no location is recorded.
\<close>

lemma failed_pickle_write_keeps_table_in_memory:
  "snd (snd (snd (process_single_ifc_file (ex_renv True Failed_nofile False) ''f-1''
      (ex_info ''door'' None None) ''cache'' ex_world))) =
     Inr (''f-1'', ''door.ifc'', ex_door_table) \<and>
   files (fst (snd (process_single_ifc_file (ex_renv True Failed_nofile False) ''f-1''
      (ex_info ''door'' None None) ''cache'' ex_world))) (cache_key ''cache'' ''f-1'') = None \<and>
   cached_df_path (fst (process_single_ifc_file (ex_renv True Failed_nofile False) ''f-1''
      (ex_info ''door'' None None) ''cache'' ex_world)) = None"
  using ex_paths(1) ex_paths(3)
  by (simp add: process_single_ifc_file_def load_from_ifc_def ex_info_def new_file_info_def
        ex_door_extract ex_cache_keys ex_renv_def write_file_def ex_door_table_def Let_def)

section \<open>extract\_data: proofs\<close>

lemma process_outcome_name:
  assumes "process_single_ifc_file env file_id fi cf w = (fi', w', lg, Inr (a, b, df))"
  shows "a = file_id \<and> b = filename_of fi"
proof (cases "tier_persisted env fi w")
  case (Some t)
  then show ?thesis using assms by (auto simp: process_persisted)
next
  case None
  show ?thesis
  proof (cases "processed_data_df fi")
    case (Some t)
    then show ?thesis using assms None by (auto simp: process_memory)
  next
    case mem: None
    obtain fi1 w1 lg1 r where l: "load_from_ifc env file_id fi cf w = (fi1, w1, lg1, r)"
      using prod_cases4 by blast
    show ?thesis
      using process_fresh [OF None mem l] assms by (cases r) auto
  qed
qed

lemma submit_loop_strings:
  "submit_loop ps md (map JStr ids) = (filter (eligible ps md) ids, snd (submit_loop ps md (map JStr ids))) \<and>
   snd (snd (submit_loop ps md (map JStr ids))) = None"
  by (induction ids)
     (auto simp: eligible_def split: prod.splits option.splits)

lemma submit_loop_sound:
  "s \<in> set (fst (submit_loop ps md js)) \<Longrightarrow> JStr s \<in> set js \<and> eligible ps md s"
proof (induction js arbitrary: s)
  case Nil
  then show ?case by simp
next
  case (Cons j js)
  obtain f l r where sl: "submit_loop ps md js = (f, l, r)" using prod_cases3 by blast
  show ?case
  proof (cases "hashable j")
    case False
    then show ?thesis using Cons.prems by simp
  next
    case True
    show ?thesis
    proof (cases j)
      case (JStr x)
      then show ?thesis
        using Cons.prems Cons.IH [of s] sl True
        by (auto simp: eligible_def split: option.splits if_splits)
    qed (use Cons.prems Cons.IH [of s] sl True in auto)
  qed
qed

lemma submit_two:
  assumes "ps c = Some t" and "status t = Completed" and "md c = Some fi" and "ps u = None"
    and "ids = [JStr c, JStr u] \<or> ids = [JStr u, JStr c]"
  shows "submit_loop ps md ids = ([c], [Skip_not_completed (JStr u)], None)"
  using assms by auto

lemma run_one:
  assumes "md c = Some fi"
    and "process_single_ifc_file ((env_at 0)\<lparr>app_ctx := False\<rparr>) c fi cf w = (fi', w', lg, out)"
  shows "run_futures env_at 0 cf [c] md w = (md(c \<mapsto> fi'), w', lg, [out])"
  using assms by simp

lemma collect_one:
  "collect [out] =
     (if rows_of out = [] then
        ([], 0, [case out of Inl e \<Rightarrow> Thread_error e
                 | Inr (file_id, filename, df) \<Rightarrow> No_dataframe file_id])
      else ([tag_rows (case out of Inr (file_id, filename, df) \<Rightarrow> filename) (rows_of out)],
            1, []))"
  by (cases out) (auto simp: rows_of_def)

lemma file_ids_of_object:
  "file_ids_of (JObj [(''file_ids'', JList ids)]) = Inr (Some ids)"
  by (simp add: file_ids_of_def)

lemma jsonify_records:
  assumes "\<forall>r\<in>set rows. \<forall>v. PropertyValue r \<noteq> Some (Wrapped v)"
  shows "jsonify (records (tag_rows n rows)) = Inr (records (tag_rows n rows))"
  using assms
  by (auto simp: jsonify_def records_def tag_rows_def list_ex_iff row.defs
           split: option.splits ifc_value.splits)

lemma records_source_model:
  "map Source_Model (records (tag_rows n rows)) = replicate (length rows) n"
  by (induction rows) (simp_all add: records_def tag_rows_def row.defs)

lemma records_rows:
  "map row.truncate (records (tag_rows n rows)) =
     map (\<lambda>r. case PropertyValue r of
                 Some (Prim (SFloat b)) \<Rightarrow>
                   if 0x7FF0000000000000 < (b AND 0x7FFFFFFFFFFFFFFF)
                   then r\<lparr>PropertyValue := None\<rparr> else r
               | _ \<Rightarrow> r) rows"
  by (induction rows)
     (auto simp: records_def tag_rows_def row.defs isna_def isnan_def
           split: option.splits ifc_value.splits scalar.splits)

text \<open>
  C7. For a batch of one id whose task is completed (and whose metadata entry exists)
  and one id that is not in the task table, in either order, \<open>extract_data\<close> answers
  with status 200, not with an error, and the records it sends are exactly the rows
  resolved for the completed id, in their order: every record has the upload name of
  that file in its \<open>Source Model\<close> column, and without that column it is the row (a
  NaN, the missing value of pandas, is sent as \<open>None\<close>). The rows hold the values that
  the extractor reads from a file: nothing, or a primitive. The log has the line that
  skips the unknown id, which adds nothing to the result. For any list of ids, a call is
  submitted only for an id whose task is completed, and for a list of strings for
  exactly those (with a metadata entry), without an exception.
\<close>

theorem C7_completed_and_unknown_id:
  assumes "ps c = Some t" and "status t = Completed" and "md c = Some fi" and "ps u = None"
    and "ids = [JStr c, JStr u] \<or> ids = [JStr u, JStr c]"
    and "process_single_ifc_file ((env_at 0)\<lparr>app_ctx := False\<rparr>) c fi cf w = (fi', w', lg, out)"
    and "\<forall>r\<in>set (rows_of out). \<forall>v. PropertyValue r \<noteq> Some (Wrapped v)"
  shows "(\<exists>data.
           snd (snd (snd (extract_data env_at cf ps md w
                            (Inr (JObj [(''file_ids'', JList ids)]))))) =
             Ok_response
               (if rows_of out = [] then No_data_extracted
                else Data_extracted 1 (length (rows_of out)))
               data \<and>
           map Source_Model data =
             replicate (length (rows_of out))
               (case original_filename fi of Some n \<Rightarrow> n | None \<Rightarrow> ''Unknown File'') \<and>
           map row.truncate data =
             map (\<lambda>r. case PropertyValue r of
                         Some (Prim (SFloat b)) \<Rightarrow>
                           if 0x7FF0000000000000 < (b AND 0x7FFFFFFFFFFFFFFF)
                           then r\<lparr>PropertyValue := None\<rparr> else r
                       | _ \<Rightarrow> r) (rows_of out)) \<and>
         Skip_not_completed (JStr u) \<in>
           set (fst (snd (snd (extract_data env_at cf ps md w
                                 (Inr (JObj [(''file_ids'', JList ids)])))))) \<and>
         fst (submit_loop ps md ids) = [c] \<and>
         (\<forall>s\<in>set (fst (submit_loop ps md js)). JStr s \<in> set js \<and> eligible ps md s) \<and>
         fst (submit_loop ps md (map JStr ids')) = filter (eligible ps md) ids' \<and>
         snd (snd (submit_loop ps md (map JStr ids'))) = None"
proof -
  let ?name = "case original_filename fi of Some n \<Rightarrow> n | None \<Rightarrow> ''Unknown File''"
  let ?msg = "if rows_of out = [] then No_data_extracted
              else Data_extracted 1 (length (rows_of out))"
  let ?data = "records (tag_rows ?name (rows_of out))"
  have ne: "ids \<noteq> []" using assms(5) by auto
  note s = submit_two [where ps = ps and md = md and c = c and u = u, OF assms(1-5)]
  note r = run_one [where md = md and c = c and env_at = env_at, OF assms(3,6)]
  have name: "rows_of out \<noteq> [] \<Longrightarrow>
      (case out of Inr (file_id, filename, df) \<Rightarrow> filename) = ?name"
    using process_outcome_name [of "(env_at 0)\<lparr>app_ctx := False\<rparr>" c fi cf w fi' w' lg] assms(6)
    by (cases out) (auto simp: rows_of_def filename_of_def)
  have len: "length ?data = length (rows_of out)"
    by (simp add: records_def tag_rows_def)
  have empty: "rows_of out = [] \<Longrightarrow> ?data = []"
    by (simp add: records_def tag_rows_def)
  have "extract_data env_at cf ps md w (Inr (JObj [(''file_ids'', JList ids)])) =
      (md(c \<mapsto> fi'), w',
       Skip_not_completed (JStr u) # lg @
         (if rows_of out = [] then
            [case out of Inl e \<Rightarrow> Thread_error e
             | Inr (file_id, filename, df) \<Rightarrow> No_dataframe file_id]
          else []),
       Ok_response ?msg ?data)"
    using ne name jsonify_records [OF assms(7), of ?name] len empty
    by (simp add: extract_data_def file_ids_of_object s r collect_one Let_def
          del: run_futures.simps collect.simps)
  then have 1: "snd (snd (snd (extract_data env_at cf ps md w
                            (Inr (JObj [(''file_ids'', JList ids)]))))) = Ok_response ?msg ?data"
    and 2: "Skip_not_completed (JStr u) \<in>
           set (fst (snd (snd (extract_data env_at cf ps md w
                                 (Inr (JObj [(''file_ids'', JList ids)]))))))"
    by simp_all
  have 3: "\<exists>data.
           snd (snd (snd (extract_data env_at cf ps md w
                            (Inr (JObj [(''file_ids'', JList ids)]))))) = Ok_response ?msg data \<and>
           map Source_Model data = replicate (length (rows_of out)) ?name \<and>
           map row.truncate data =
             map (\<lambda>r. case PropertyValue r of
                         Some (Prim (SFloat b)) \<Rightarrow>
                           if 0x7FF0000000000000 < (b AND 0x7FFFFFFFFFFFFFFF)
                           then r\<lparr>PropertyValue := None\<rparr> else r
                       | _ \<Rightarrow> r) (rows_of out)"
    using 1 records_source_model [of ?name "rows_of out"] records_rows [of ?name "rows_of out"]
    by blast
  have 4: "\<forall>s\<in>set (fst (submit_loop ps md js)). JStr s \<in> set js \<and> eligible ps md s"
    using submit_loop_sound by blast
  have 5: "fst (submit_loop ps md (map JStr ids')) = filter (eligible ps md) ids'"
    "snd (snd (submit_loop ps md (map JStr ids'))) = None"
    using submit_loop_strings [of ps md ids'] by (metis fst_conv, simp)
  show ?thesis using 2 3 4 5 s by simp
qed

lemma ex_upload_resolve:
  "process_single_ifc_file (ex_renv True Written False) ''f-1'' ex_upload ''cache'' ex_world =
   (ex_upload\<lparr>processed_data_df := Some ex_door_table,
              cached_df_path := Some ''cache/f_1_df.pkl''\<rparr>,
    ex_cache_world (Pickle ex_door_table),
    [Loading_from_ifc ''f-1'', Parsed_ifc ''f-1'' 1, Cached_to_disk ''cache/f_1_df.pkl''],
    Inr (''f-1'', ''model_A.ifc'', ex_door_table))"
  using ex_paths(1)
  by (simp add: process_single_ifc_file_def load_from_ifc_def ex_upload_def new_file_info_def
        ex_door_extract ex_cache_keys ex_renv_def write_file_def ex_cache_world_def
        ex_door_table_def Let_def)

theorem C7_completed_and_unknown_id_witness:
  "snd (snd (snd (extract_data (\<lambda>i. ex_renv True Written True) ''cache'' ex_status ex_metadata
                    ex_world (Inr (JObj [(''file_ids'', JList [JStr ''f-1'', JStr ''nope''])]))))) =
     Ok_response (Data_extracted 1 1)
       [\<lparr>IFC_Entity = ''IfcDoor'', IFC_Name = Some ''Door'', IFC_GlobalId = Some ''D1'',
         PropertySet = Some ''Pset_DoorCommon'', PropertyName = Some ''IsExternal'',
         PropertyValue = Some (Prim (SBool True)), FileName = ''door.ifc'',
         Source_Model = ''model_A.ifc''\<rparr>] \<and>
   Skip_not_completed (JStr ''nope'') \<in>
     set (fst (snd (snd (extract_data (\<lambda>i. ex_renv True Written True) ''cache'' ex_status
                           ex_metadata ex_world
                           (Inr (JObj [(''file_ids'', JList [JStr ''f-1'', JStr ''nope''])])))))) \<and>
   ex_status ''nope'' = None \<and>
   fst (submit_loop ex_status ex_metadata [JStr ''nope'', JInt 7, JStr ''f-1'']) = [''f-1'']"
proof -
  let ?R = "snd (snd (snd (extract_data (\<lambda>i. ex_renv True Written True) ''cache'' ex_status
                    ex_metadata ex_world
                    (Inr (JObj [(''file_ids'', JList [JStr ''f-1'', JStr ''nope''])])))))"
  have e: "(ex_renv True Written True)\<lparr>app_ctx := False\<rparr> = ex_renv True Written False"
    by (simp add: ex_renv_def)
  have p: "process_single_ifc_file (((\<lambda>i. ex_renv True Written True) 0)\<lparr>app_ctx := False\<rparr>)
             ''f-1'' ex_upload ''cache'' ex_world =
           (ex_upload\<lparr>processed_data_df := Some ex_door_table,
                      cached_df_path := Some ''cache/f_1_df.pkl''\<rparr>,
            ex_cache_world (Pickle ex_door_table),
            [Loading_from_ifc ''f-1'', Parsed_ifc ''f-1'' 1, Cached_to_disk ''cache/f_1_df.pkl''],
            Inr (''f-1'', ''model_A.ifc'', ex_door_table))"
    using ex_upload_resolve by (simp add: e)
  have h: "ex_status ''f-1'' = Some ((new_task ''model_A.ifc'' ''IFC4'' ''CAD'' ''up/door.ifc'')
                    \<lparr>status := Completed,
                     result := Some \<lparr>csv_path = ''cache/f-1.csv'',
                                     json_path = ''cache/f-1.json''\<rparr>\<rparr>)"
    "ex_metadata ''f-1'' = Some ex_upload"
    "ex_status ''nope'' = None"
    by (simp_all add: ex_status_def ex_metadata_def)
  have v: "\<forall>r\<in>set (rows_of (Inr (''f-1'', ''model_A.ifc'', ex_door_table))).
             \<forall>v. PropertyValue r \<noteq> Some (Wrapped v)"
    by (simp add: rows_of_def ex_door_table_def)
  note c7 = C7_completed_and_unknown_id
    [where ps = ex_status and md = ex_metadata and c = "''f-1''" and u = "''nope''"
       and ids = "[JStr ''f-1'', JStr ''nope'']" and ids' = "[]"
       and js = "[JStr ''nope'', JInt 7, JStr ''f-1'']"
       and env_at = "\<lambda>i. ex_renv True Written True",
     OF h(1) _ h(2) h(3) _ p v]
  have c7': "(\<exists>data. ?R = Ok_response (Data_extracted 1 1) data \<and>
               map Source_Model data = [''model_A.ifc''] \<and>
               map row.truncate data = ex_door_table)"
    using c7 by (simp add: rows_of_def ex_upload_def new_file_info_def ex_door_table_def)
  then obtain data where d: "?R = Ok_response (Data_extracted 1 1) data"
    "map Source_Model data = [''model_A.ifc'']" "map row.truncate data = ex_door_table"
    by (elim exE conjE) (rule that, assumption+)
  from d(2) obtain x where x: "data = [x]" by auto
  have "x = \<lparr>IFC_Entity = ''IfcDoor'', IFC_Name = Some ''Door'', IFC_GlobalId = Some ''D1'',
         PropertySet = Some ''Pset_DoorCommon'', PropertyName = Some ''IsExternal'',
         PropertyValue = Some (Prim (SBool True)), FileName = ''door.ifc'',
         Source_Model = ''model_A.ifc''\<rparr>"
    using d(2,3) x by (cases x) (simp add: ex_door_table_def row.defs)
  then have 1: "?R = Ok_response (Data_extracted 1 1)
       [\<lparr>IFC_Entity = ''IfcDoor'', IFC_Name = Some ''Door'', IFC_GlobalId = Some ''D1'',
         PropertySet = Some ''Pset_DoorCommon'', PropertyName = Some ''IsExternal'',
         PropertyValue = Some (Prim (SBool True)), FileName = ''door.ifc'',
         Source_Model = ''model_A.ifc''\<rparr>]"
    using d(1) x by simp
  have 2: "Skip_not_completed (JStr ''nope'') \<in>
     set (fst (snd (snd (extract_data (\<lambda>i. ex_renv True Written True) ''cache'' ex_status
                           ex_metadata ex_world
                           (Inr (JObj [(''file_ids'', JList [JStr ''f-1'', JStr ''nope''])]))))))"
    using c7 by simp
  have 3: "fst (submit_loop ex_status ex_metadata [JStr ''nope'', JInt 7, JStr ''f-1'']) = [''f-1'']"
    by (simp add: ex_status_def ex_metadata_def)
  show ?thesis using 1 2 3 h(3) by simp
qed
end
